theory Spec2Isabelle
  imports Complex_Main "HOL-Library.AList"
begin

section \<open>Python values and exceptions\<close>

text \<open>
  The values that \<^verbatim>\<open>json.loads\<close> produces: \<^verbatim>\<open>None\<close>, booleans, integers, strings, lists
  and dictionaries (a dictionary as an association list, looked up with \<open>map_of\<close>).
  JSON numbers with a fraction or an exponent (Python floats) are outside the model.
  A Python \<^verbatim>\<open>str\<close> is a \<open>string\<close>; its characters stand for code points.
\<close>

datatype json = JNull | JBool bool | JInt int | JStr string
  | JArr "json list" | JObj "(string \<times> json) list"

text \<open>
  Every exception the modelled code raises, by an explicit \<^verbatim>\<open>raise\<close> or by an operation
  of the language (a subscript, \<^verbatim>\<open>str.index\<close>, \<^verbatim>\<open>del\<close>) or of the standard library
  (\<^verbatim>\<open>Popen\<close>, \<^verbatim>\<open>json.loads\<close>, \<^verbatim>\<open>bytes.decode\<close>, \<^verbatim>\<open>os.makedirs\<close>).
\<close>

datatype error =
    InvalidStateException
  | InvalidArgumentsException
  | NoEncryptionPasswordException
  | VaultNotUnlockedException
  | AuthenticationFailedException json string
  | TypeError
  | KeyError string
  | ValueError
  | AttributeError
  | OSError
  | JSONDecodeError
  | UnicodeDecodeError

definition ebind :: "error + 'a \<Rightarrow> ('a \<Rightarrow> error + 'b) \<Rightarrow> error + 'b" where
  "ebind m f = (case m of Inl e \<Rightarrow> Inl e | Inr v \<Rightarrow> f v)"

lemma map_of_size [termination_simp]:
  "map_of kvs k = Some v \<Longrightarrow> size v < Suc (size_list (\<lambda>x. Suc (size (snd x))) kvs)"
  by (induction kvs) (auto split: if_splits)

text \<open>
  Python's \<^verbatim>\<open>==\<close> on these values: \<^verbatim>\<open>bool\<close> is a subclass of \<^verbatim>\<open>int\<close>, so
  \<^verbatim>\<open>True == 1\<close> and \<^verbatim>\<open>False == 0\<close>; lists compare elementwise, dictionaries by keys and
  values whatever the order; values of different kinds are unequal. \<^verbatim>\<open>a != b\<close> is its negation.
\<close>

fun py_eq :: "json \<Rightarrow> json \<Rightarrow> bool" where
  "py_eq JNull JNull = True"
| "py_eq (JBool a) (JBool b) = (a = b)"
| "py_eq (JBool a) (JInt n) = ((if a then 1 else 0) = n)"
| "py_eq (JInt m) (JBool b) = (m = (if b then 1 else 0))"
| "py_eq (JInt m) (JInt n) = (m = n)"
| "py_eq (JStr s) (JStr t) = (s = t)"
| "py_eq (JArr xs) (JArr ys) = list_all2 py_eq xs ys"
| "py_eq (JObj a) (JObj b) =
     (set (map fst a) = set (map fst b) \<and>
      list_all (\<lambda>k. case map_of a k of None \<Rightarrow> False
                 | Some u \<Rightarrow> (case map_of b k of None \<Rightarrow> False | Some v \<Rightarrow> py_eq u v))
        (map fst a))"
| "py_eq _ _ = False"

text \<open>The subscript \<^verbatim>\<open>conf[key]\<close> with a string key.\<close>

fun getitem :: "json \<Rightarrow> string \<Rightarrow> error + json" where
  "getitem (JObj kvs) k = (case map_of kvs k of None \<Rightarrow> Inl (KeyError k) | Some v \<Rightarrow> Inr v)"
| "getitem _ k = Inl TypeError"

section \<open>Types.py\<close>

datatype ItemTypes = LOGIN | NOTE | CARD | IDENTITY

fun ItemTypes_value :: "ItemTypes \<Rightarrow> int" where
  "ItemTypes_value LOGIN = 1"
| "ItemTypes_value NOTE = 2"
| "ItemTypes_value CARD = 3"
| "ItemTypes_value IDENTITY = 4"

datatype OrganizationUserTypes = OWNER | ADMIN | USER | MANAGER | CUSTOM

fun OrganizationUserTypes_value :: "OrganizationUserTypes \<Rightarrow> int" where
  "OrganizationUserTypes_value OWNER = 0"
| "OrganizationUserTypes_value ADMIN = 1"
| "OrganizationUserTypes_value USER = 2"
| "OrganizationUserTypes_value MANAGER = 3"
| "OrganizationUserTypes_value CUSTOM = 4"

record BitwardenCollection =
  col_id :: json
  col_oid :: json
  col_name :: json
  col_eid :: json

definition BitwardenCollection_init :: "json \<Rightarrow> error + BitwardenCollection" where
  "BitwardenCollection_init conf =
     ebind (getitem conf ''id'') (\<lambda>i.
     ebind (getitem conf ''organizationId'') (\<lambda>oi.
     ebind (getitem conf ''name'') (\<lambda>n.
     ebind (getitem conf ''externalId'') (\<lambda>e.
       Inr \<lparr>col_id = i, col_oid = oi, col_name = n, col_eid = e\<rparr>))))"

record BitwardenOrganization =
  org_id :: json
  org_name :: json
  org_status :: json
  org_type :: json
  org_enabled :: json

definition BitwardenOrganization_init :: "json \<Rightarrow> error + BitwardenOrganization" where
  "BitwardenOrganization_init conf =
     ebind (getitem conf ''id'') (\<lambda>i.
     ebind (getitem conf ''name'') (\<lambda>n.
     ebind (getitem conf ''status'') (\<lambda>s.
     ebind (getitem conf ''type'') (\<lambda>t.
     ebind (getitem conf ''enabled'') (\<lambda>e.
       Inr \<lparr>org_id = i, org_name = n, org_status = s, org_type = t, org_enabled = e\<rparr>)))))"

text \<open>
  The item classes. \<^verbatim>\<open>BitwardenCard\<close> and \<^verbatim>\<open>BitwardenLogin\<close> extend \<^verbatim>\<open>BitwardenItem\<close>;
  \<^verbatim>\<open>BitwardenNote\<close> adds no field and no method.
\<close>

record BitwardenItem =
  item_id :: json
  item_fid :: json
  item_name :: json
  item_note :: json

record BitwardenCard = BitwardenItem +
  card_holder_name :: json
  card_brand :: json
  card_number :: json
  card_exp_month :: json
  card_exp_year :: json
  card_code :: json

record BitwardenLogin = BitwardenItem +
  login_username :: json
  login_password :: json
  login_totp :: json

datatype item = Card BitwardenCard | Note BitwardenItem | Login BitwardenLogin

definition BitwardenItem_init :: "json \<Rightarrow> error + BitwardenItem" where
  "BitwardenItem_init conf =
     ebind (getitem conf ''id'') (\<lambda>i.
     ebind (getitem conf ''folderId'') (\<lambda>f.
     ebind (getitem conf ''name'') (\<lambda>n.
     ebind (getitem conf ''notes'') (\<lambda>nt.
       Inr \<lparr>item_id = i, item_fid = f, item_name = n, item_note = nt\<rparr>))))"

definition card_field :: "json \<Rightarrow> string \<Rightarrow> error + json" where
  "card_field conf k = ebind (getitem conf ''card'') (\<lambda>c. getitem c k)"

definition BitwardenCard_init :: "json \<Rightarrow> error + BitwardenCard" where
  "BitwardenCard_init conf =
     ebind (BitwardenItem_init conf) (\<lambda>b.
     ebind (card_field conf ''cardholderName'') (\<lambda>h.
     ebind (card_field conf ''brand'') (\<lambda>br.
     ebind (card_field conf ''number'') (\<lambda>nu.
     ebind (card_field conf ''expMonth'') (\<lambda>m.
     ebind (card_field conf ''expYear'') (\<lambda>y.
     ebind (card_field conf ''code'') (\<lambda>c.
       Inr (BitwardenItem.extend b
         (BitwardenCard.fields h br nu m y c)))))))))"

definition BitwardenNote_init :: "json \<Rightarrow> error + BitwardenItem" where
  "BitwardenNote_init conf = BitwardenItem_init conf"

definition login_field :: "json \<Rightarrow> string \<Rightarrow> error + json" where
  "login_field conf k = ebind (getitem conf ''login'') (\<lambda>c. getitem c k)"

definition BitwardenLogin_init :: "json \<Rightarrow> error + BitwardenLogin" where
  "BitwardenLogin_init conf =
     ebind (BitwardenItem_init conf) (\<lambda>b.
     ebind (login_field conf ''username'') (\<lambda>u.
     ebind (login_field conf ''password'') (\<lambda>p.
     ebind (login_field conf ''totp'') (\<lambda>t.
       Inr (BitwardenItem.extend b (BitwardenLogin.fields u p t))))))"

text \<open>
  \<^verbatim>\<open>get_bitwarden_item\<close> falls off its end, returning \<^verbatim>\<open>None\<close>, for any other type.
\<close>

definition get_bitwarden_item :: "json \<Rightarrow> error + item option" where
  "get_bitwarden_item conf =
     ebind (getitem conf ''type'') (\<lambda>type.
       if py_eq type (JInt (ItemTypes_value CARD)) then
         ebind (BitwardenCard_init conf) (\<lambda>c. Inr (Some (Card c)))
       else if py_eq type (JInt (ItemTypes_value LOGIN)) then
         ebind (BitwardenLogin_init conf) (\<lambda>l. Inr (Some (Login l)))
       else if py_eq type (JInt (ItemTypes_value NOTE)) then
         ebind (BitwardenNote_init conf) (\<lambda>n. Inr (Some (Note n)))
       else Inr None)"

text \<open>
  \<^verbatim>\<open>BitwardenItem.__eq__\<close>, on the common part of any item (\<open>other\<close> is \<open>None\<close> for
  Python's \<^verbatim>\<open>None\<close>): only the name and the notes are compared.
\<close>

definition BitwardenItem_eq ::
  "'a BitwardenItem_scheme \<Rightarrow> 'b BitwardenItem_scheme option \<Rightarrow> bool" where
  "BitwardenItem_eq self other =
     (case other of
        None \<Rightarrow> False
      | Some ot \<Rightarrow>
          if \<not> py_eq (item_name self) (item_name ot) then False
          else if \<not> py_eq (item_note self) (item_note ot) then False
          else True)"

text \<open>The common part of an item of any class, for the call \<^verbatim>\<open>super().__eq__(other)\<close>.\<close>

fun item_base :: "item \<Rightarrow> BitwardenItem" where
  "item_base (Card c) = BitwardenItem.truncate c"
| "item_base (Note n) = n"
| "item_base (Login l) = BitwardenItem.truncate l"

text \<open>
  \<^verbatim>\<open>BitwardenCard.__eq__\<close>: reading \<^verbatim>\<open>other.holder_name\<close> on an item of another class
  raises \<^verbatim>\<open>AttributeError\<close>.
\<close>

definition BitwardenCard_eq :: "BitwardenCard \<Rightarrow> item option \<Rightarrow> error + bool" where
  "BitwardenCard_eq self other =
     (let base_match = BitwardenItem_eq self (map_option item_base other) in
      if \<not> base_match then Inr False
      else (case other of
          Some (Card ot) \<Rightarrow>
            if \<not> py_eq (card_holder_name self) (card_holder_name ot) then Inr False
            else if \<not> py_eq (card_brand self) (card_brand ot) then Inr False
            else if \<not> py_eq (card_number self) (card_number ot) then Inr False
            else if \<not> py_eq (card_exp_month self) (card_exp_month ot) then Inr False
            else if \<not> py_eq (card_exp_year self) (card_exp_year ot) then Inr False
            else if \<not> py_eq (card_code self) (card_code ot) then Inr False
            else Inr True
        | _ \<Rightarrow> Inl AttributeError))"

definition BitwardenLogin_eq :: "BitwardenLogin \<Rightarrow> item option \<Rightarrow> error + bool" where
  "BitwardenLogin_eq self other =
     (let base_match = BitwardenItem_eq self (map_option item_base other) in
      if \<not> base_match then Inr False
      else (case other of
          Some (Login ot) \<Rightarrow>
            if \<not> py_eq (login_username self) (login_username ot) then Inr False
            else if \<not> py_eq (login_password self) (login_password ot) then Inr False
            else if \<not> py_eq (login_totp self) (login_totp ot) then Inr False
            else Inr True
        | _ \<Rightarrow> Inl AttributeError))"

text \<open>\<^verbatim>\<open>self == other\<close>: the \<^verbatim>\<open>__eq__\<close> of the class of \<open>self\<close>.\<close>

fun item_eq :: "item \<Rightarrow> item option \<Rightarrow> error + bool" where
  "item_eq (Card c) other = BitwardenCard_eq c other"
| "item_eq (Login l) other = BitwardenLogin_eq l other"
| "item_eq (Note n) other = Inr (BitwardenItem_eq n (map_option item_base other))"

section \<open>The process, its environment and the standard library\<close>

text \<open>
  What a spawned process does is not decided by this program: \<open>script\<close> holds, in order,
  the outcome of every process still to be spawned (\<open>SpawnFailed\<close> when \<^verbatim>\<open>Popen\<close>
  raises; so does an exhausted script). \<open>trace\<close> records, in order, every process that ran,
  with its arguments and the environment it inherited, and every sleep.
\<close>

datatype response = Exited int string string | SpawnFailed

datatype event = Run "string list" "(string \<times> string) list" | Sleep real

datatype ftype = File | Dir

text \<open>
  The fields of a \<^verbatim>\<open>Bitwarden\<close> instance (\<^verbatim>\<open>_serverUrl\<close>, \<^verbatim>\<open>_bw_session_id\<close>,
  \<^verbatim>\<open>_bw_app_location\<close>) and the state of the process around it: \<^verbatim>\<open>os.environ\<close>, the
  file system as far as \<^verbatim>\<open>os.path.exists\<close>, \<^verbatim>\<open>os.path.isdir\<close> and \<^verbatim>\<open>os.makedirs\<close>
  see it, and \<open>now\<close>, what \<^verbatim>\<open>datetime.now().strftime("%Y%m%d-%H%M")\<close> returns.
\<close>

record state =
  serverUrl_field :: "string option"
  bw_session_id :: "string option"
  bw_app_location :: string
  environ :: "(string \<times> string) list"
  script :: "response list"
  trace :: "event list"
  fs :: "(string \<times> ftype) list"
  fs_writable :: bool
  now :: string

text \<open>
  The functions of Python's standard library that are taken as given: \<^verbatim>\<open>json.loads\<close>,
  \<^verbatim>\<open>bytes.decode('utf-8')\<close>, and \<^verbatim>\<open>str()\<close> of an integer, a list or a dictionary.
\<close>

record stdlib =
  json_loads :: "string \<Rightarrow> error + json"
  decode_utf8 :: "string \<Rightarrow> error + string"
  py_repr :: "json \<Rightarrow> string"

type_synonym 'a M = "state \<Rightarrow> (error + 'a) \<times> state"

definition sreturn :: "'a \<Rightarrow> 'a M" where
  "sreturn v s = (Inr v, s)"

definition raise :: "error \<Rightarrow> 'a M" where
  "raise e s = (Inl e, s)"

definition lift_e :: "error + 'a \<Rightarrow> 'a M" where
  "lift_e r s = (r, s)"

definition sbind :: "'a M \<Rightarrow> ('a \<Rightarrow> 'b M) \<Rightarrow> 'b M" where
  "sbind m f s = (case m s of (Inl e, s') \<Rightarrow> (Inl e, s') | (Inr v, s') \<Rightarrow> f v s')"

fun is_JStr :: "json \<Rightarrow> bool" where
  "is_JStr (JStr s) = True"
| "is_JStr _ = False"

fun the_JStr :: "json \<Rightarrow> string" where
  "the_JStr (JStr s) = s"
| "the_JStr _ = []"

text \<open>
  Common/Utils.py, \<^verbatim>\<open>performCommandLineOperation\<close>: \<^verbatim>\<open>Popen\<close> raises \<^verbatim>\<open>TypeError\<close>
  for an argument that is not a string, and \<^verbatim>\<open>OSError\<close> when the process cannot be
  spawned; otherwise the process runs and its exit code and output are returned.
\<close>

definition performCommandLineOperation :: "json list \<Rightarrow> (int \<times> string \<times> string) M" where
  "performCommandLineOperation command s =
     (if \<not> list_all is_JStr command then (Inl TypeError, s)
      else (case script s of
          [] \<Rightarrow> (Inl OSError, s)
        | SpawnFailed # rs \<Rightarrow> (Inl OSError, s\<lparr>script := rs\<rparr>)
        | Exited c out err # rs \<Rightarrow>
            (Inr (c, out, err),
             s\<lparr>script := rs, trace := trace s @ [Run (map the_JStr command) (environ s)]\<rparr>)))"

text \<open>\<^verbatim>\<open>time.sleep\<close> raises \<^verbatim>\<open>ValueError\<close> for a negative length.\<close>

definition sleep :: "real \<Rightarrow> unit M" where
  "sleep d s = (if d < 0 then (Inl ValueError, s) else (Inr (), s\<lparr>trace := trace s @ [Sleep d]\<rparr>))"

text \<open>
  \<^verbatim>\<open>os.environ[k] = v\<close> (\<^verbatim>\<open>TypeError\<close> unless \<open>v\<close> is a string) and
  \<^verbatim>\<open>del os.environ[k]\<close> (\<^verbatim>\<open>KeyError\<close> when \<open>k\<close> is not set).
\<close>

definition environ_set :: "string \<Rightarrow> json \<Rightarrow> unit M" where
  "environ_set k v s =
     (case v of
        JStr x \<Rightarrow> (Inr (), s\<lparr>environ := AList.update k x (environ s)\<rparr>)
      | _ \<Rightarrow> (Inl TypeError, s))"

definition environ_del :: "string \<Rightarrow> unit M" where
  "environ_del k s =
     (if k \<in> fst ` set (environ s) then (Inr (), s\<lparr>environ := AList.delete k (environ s)\<rparr>)
      else (Inl (KeyError k), s))"

definition path_exists :: "state \<Rightarrow> string \<Rightarrow> bool" where
  "path_exists s p = (map_of (fs s) p \<noteq> None)"

definition path_isdir :: "state \<Rightarrow> string \<Rightarrow> bool" where
  "path_isdir s p = (map_of (fs s) p = Some Dir)"

definition makedirs :: "string \<Rightarrow> unit M" where
  "makedirs p s =
     (if \<not> fs_writable s \<or> path_exists s p then (Inl OSError, s)
      else (Inr (), s\<lparr>fs := (p, Dir) # fs s\<rparr>))"

text \<open>\<^verbatim>\<open>os.path.join\<close> of two components (POSIX).\<close>

definition path_join :: "string \<Rightarrow> string \<Rightarrow> string" where
  "path_join a b =
     (if b \<noteq> [] \<and> hd b = CHR ''/'' then b
      else if a = [] \<or> last a = CHR ''/'' then a @ b
      else a @ ''/'' @ b)"

text \<open>\<^verbatim>\<open>str(v)\<close>, as the \<^verbatim>\<open>%s\<close> conversion applies it.\<close>

fun py_str :: "stdlib \<Rightarrow> json \<Rightarrow> string" where
  "py_str L (JStr s) = s"
| "py_str L JNull = ''None''"
| "py_str L (JBool b) = (if b then ''True'' else ''False'')"
| "py_str L v = py_repr L v"

text \<open>The values a \<^verbatim>\<open>for\<close> loop draws from a value: a dictionary yields its keys, a string
  its characters; \<^verbatim>\<open>None\<close>, a boolean and an integer are not iterable.\<close>

fun py_iter :: "json \<Rightarrow> error + json list" where
  "py_iter (JArr xs) = Inr xs"
| "py_iter (JObj kvs) = Inr (map (\<lambda>kv. JStr (fst kv)) kvs)"
| "py_iter (JStr s) = Inr (map (\<lambda>c. JStr [c]) s)"
| "py_iter _ = Inl TypeError"

fun mapE :: "('a \<Rightarrow> error + 'b) \<Rightarrow> 'a list \<Rightarrow> error + 'b list" where
  "mapE f [] = Inr []"
| "mapE f (x # xs) = ebind (f x) (\<lambda>y. ebind (mapE f xs) (\<lambda>ys. Inr (y # ys)))"

text \<open>\<^verbatim>\<open>sub in s\<close> on strings, \<^verbatim>\<open>s.split(c)\<close>, \<^verbatim>\<open>s.index(c)\<close> and the slice
  \<^verbatim>\<open>s[i:j]\<close> (a negative str_index counts from the end, and both are clipped).\<close>

fun str_contains :: "string \<Rightarrow> string \<Rightarrow> bool" where
  "str_contains sub [] = (sub = [])"
| "str_contains sub (x # xs) = (take (length sub) (x # xs) = sub \<or> str_contains sub xs)"

fun str_split :: "char \<Rightarrow> string \<Rightarrow> string list" where
  "str_split c [] = [[]]"
| "str_split c (x # xs) =
     (if x = c then [] # str_split c xs
      else (case str_split c xs of [] \<Rightarrow> [[x]] | l # ls \<Rightarrow> (x # l) # ls))"

fun str_index :: "string \<Rightarrow> char \<Rightarrow> error + nat" where
  "str_index [] c = Inl ValueError"
| "str_index (x # xs) c = (if x = c then Inr 0 else ebind (str_index xs c) (\<lambda>i. Inr (Suc i)))"

definition slice :: "'a list \<Rightarrow> int \<Rightarrow> int \<Rightarrow> 'a list" where
  "slice xs i j =
     (let n = int (length xs);
          a = (if i < 0 then max 0 (i + n) else min i n);
          b = (if j < 0 then max 0 (j + n) else min j n)
      in drop (nat a) (take (nat b) xs))"

section \<open>Bitwarden.py\<close>

text \<open>The \<^verbatim>\<open>status\<close> property: \<^verbatim>\<open>None\<close> when the command fails.\<close>

definition status :: "stdlib \<Rightarrow> json M" where
  "status L s =
     (let cmd = [JStr (bw_app_location s), JStr ''status''];
          cmd = (case bw_session_id s of
                   None \<Rightarrow> cmd
                 | Some sid \<Rightarrow> cmd @ [JStr ''--session'', JStr sid])
      in sbind (performCommandLineOperation cmd)
           (\<lambda>(code, stdout, stderr).
              if code = 0 then lift_e (json_loads L stdout) else sreturn JNull) s)"

text \<open>The getter and the setter of the \<^verbatim>\<open>serverUrl\<close> property.\<close>

definition serverUrl :: "state \<Rightarrow> string option" where
  "serverUrl s = serverUrl_field s"

definition serverUrl_set :: "stdlib \<Rightarrow> json \<Rightarrow> unit M" where
  "serverUrl_set L url =
     sbind (status L) (\<lambda>st.
     sbind (lift_e (getitem st ''status'')) (\<lambda>v.
       if \<not> py_eq v (JStr ''unauthenticated'') then raise InvalidStateException
       else (\<lambda>s. sbind
               (performCommandLineOperation
                  [JStr (bw_app_location s), JStr ''config'', JStr ''server'', url])
               (\<lambda>r. sreturn ()) s)))"

definition Bitwarden_init :: "stdlib \<Rightarrow> string \<Rightarrow> json \<Rightarrow> json \<Rightarrow> unit M" where
  "Bitwarden_init L bwCliLocation url ca_cert_path s =
     sbind (if \<not> py_eq ca_cert_path JNull
            then environ_set ''NODE_EXTRA_CA_CERTS'' ca_cert_path else sreturn ())
       (\<lambda>u. sbind (status L) (\<lambda>st.
             sbind (lift_e (getitem st ''serverUrl'')) (\<lambda>v.
               if \<not> py_eq v url then serverUrl_set L url else sreturn ())))
       (s\<lparr>serverUrl_field := None, bw_session_id := None, bw_app_location := bwCliLocation\<rparr>)"

text \<open>
  \<^verbatim>\<open>__extractSessionFromStdOut__\<close>: the loop over the lines has no \<^verbatim>\<open>break\<close>; every line
  that contains \<^verbatim>\<open>export\<close> assigns the session id.
\<close>

fun extract_lines :: "string list \<Rightarrow> unit M" where
  "extract_lines [] s = (Inr (), s)"
| "extract_lines (line # lines) s =
     (if str_contains ''export'' line then
        (case str_index line CHR ''='' of
           Inl e \<Rightarrow> (Inl e, s)
         | Inr idx \<Rightarrow>
             (let session_raw = drop idx line
              in extract_lines lines
                   (s\<lparr>bw_session_id :=
                        Some (slice session_raw 2 (int (length session_raw) - 1))\<rparr>)))
      else extract_lines lines s)"

definition extractSessionFromStdOut :: "stdlib \<Rightarrow> string \<Rightarrow> unit M" where
  "extractSessionFromStdOut L stdout =
     sbind (lift_e (decode_utf8 L stdout)) (\<lambda>content. extract_lines (str_split CHR 0x0A content))"

definition isClientLatest :: "stdlib \<Rightarrow> bool M" where
  "isClientLatest L s =
     sbind (performCommandLineOperation [JStr (bw_app_location s), JStr ''update''])
       (\<lambda>(code, stdout, stderr).
          if code = 0 then
            sbind (lift_e (decode_utf8 L stdout)) (\<lambda>output.
              if str_contains ''No update available'' output then sreturn True
              else sreturn False)
          else sreturn False) s"

definition sync :: "bool M" where
  "sync s =
     (case bw_session_id s of
        None \<Rightarrow> (Inl VaultNotUnlockedException, s)
      | Some sid \<Rightarrow>
          sbind (performCommandLineOperation
                   [JStr (bw_app_location s), JStr ''sync'', JStr ''--session'', JStr sid])
            (\<lambda>(code, stdout, stderr). if code = 0 then sreturn True else sreturn False) s)"

text \<open>
  The \<^verbatim>\<open>while\<close> loop of \<^verbatim>\<open>loginWithPassword\<close>, from the values of \<^verbatim>\<open>number_retries\<close>
  and \<^verbatim>\<open>ret_value\<close> at its head to the \<^verbatim>\<open>return\<close>.
\<close>

function loginWithPassword_loop ::
  "stdlib \<Rightarrow> json \<Rightarrow> json \<Rightarrow> int \<Rightarrow> int \<Rightarrow> bool \<Rightarrow> bool M" where
  "loginWithPassword_loop L username pw retry_count number_retries ret_value s =
     (if number_retries \<le> retry_count then
        (case performCommandLineOperation
                [JStr (bw_app_location s), JStr ''login'', username, pw] s of
           (Inl e, s') \<Rightarrow> (Inl e, s')
         | (Inr (code, stdout, stderr), s') \<Rightarrow>
             if code = 0 then
               sbind (extractSessionFromStdOut L stdout) (\<lambda>u.
               sbind sync (\<lambda>r. sreturn True)) s'
             else
               (case sleep (0.5 * real_of_int number_retries) s' of
                  (Inl e, s'') \<Rightarrow> (Inl e, s'')
                | (Inr u, s'') \<Rightarrow>
                    loginWithPassword_loop L username pw retry_count (number_retries + 1)
                      ret_value s''))
      else (Inr ret_value, s))"
  by pat_completeness auto
termination
  by (relation "measure (\<lambda>(L, u, p, retry_count, number_retries, r, s).
        nat (retry_count + 1 - number_retries))") auto

definition loginWithPassword :: "stdlib \<Rightarrow> json \<Rightarrow> json \<Rightarrow> int \<Rightarrow> bool M" where
  "loginWithPassword L username pw retry_count =
     sbind (status L) (\<lambda>st.
     sbind (lift_e (getitem st ''status'')) (\<lambda>v.
       if \<not> py_eq v (JStr ''unauthenticated'') then raise InvalidStateException
       else loginWithPassword_loop L username pw retry_count 1 False))"

function loginWithApiKey_loop :: "int \<Rightarrow> int \<Rightarrow> bool \<Rightarrow> bool M" where
  "loginWithApiKey_loop retry_count number_retries ret_value s =
     (if number_retries \<le> retry_count then
        (case performCommandLineOperation
                [JStr (bw_app_location s), JStr ''login'', JStr ''--apikey''] s of
           (Inl e, s') \<Rightarrow> (Inl e, s')
         | (Inr (code, stdout, stderr), s') \<Rightarrow>
             if code = 0 then (Inr True, s')
             else
               (case sleep (0.5 * real_of_int number_retries) s' of
                  (Inl e, s'') \<Rightarrow> (Inl e, s'')
                | (Inr u, s'') \<Rightarrow>
                    loginWithApiKey_loop retry_count (number_retries + 1) ret_value s''))
      else (Inr ret_value, s))"
  by pat_completeness auto
termination
  by (relation "measure (\<lambda>(retry_count, number_retries, r, s).
        nat (retry_count + 1 - number_retries))") auto

definition loginWithApiKey :: "stdlib \<Rightarrow> json \<Rightarrow> json \<Rightarrow> int \<Rightarrow> bool M" where
  "loginWithApiKey L client_id client_secret retry_count =
     sbind (status L) (\<lambda>st.
     sbind (lift_e (getitem st ''status'')) (\<lambda>v.
       if \<not> py_eq v (JStr ''unauthenticated'') then raise InvalidStateException
       else
         sbind (environ_set ''BW_CLIENTID'' client_id) (\<lambda>u.
         sbind (environ_set ''BW_CLIENTSECRET'' client_secret) (\<lambda>u.
         sbind (loginWithApiKey_loop retry_count 1 False) (\<lambda>ret_value.
         sbind (environ_del ''BW_CLIENTID'') (\<lambda>u.
         sbind (environ_del ''BW_CLIENTSECRET'') (\<lambda>u.
           sreturn ret_value)))))))"

definition logout :: "unit M" where
  "logout s =
     sbind (performCommandLineOperation [JStr (bw_app_location s), JStr ''logout''])
       (\<lambda>r s'. (Inr (), s'\<lparr>bw_session_id := None\<rparr>)) s"

definition unlock :: "stdlib \<Rightarrow> json \<Rightarrow> bool M" where
  "unlock L pw =
     sbind (status L) (\<lambda>st.
     sbind (lift_e (getitem st ''status'')) (\<lambda>v.
       if py_eq v (JStr ''unlocked'') then sreturn True
       else if py_eq v (JStr ''unauthenticated'') then raise InvalidStateException
       else
         sbind (environ_set ''BW_PASSWORD'' pw) (\<lambda>u.
         sbind (\<lambda>s. performCommandLineOperation
                  [JStr (bw_app_location s), JStr ''unlock'', JStr ''--passwordenv'',
                   JStr ''BW_PASSWORD''] s) (\<lambda>(code, stdout, stderr).
         sbind (environ_del ''BW_PASSWORD'') (\<lambda>u.
           if code = 0 then sbind (extractSessionFromStdOut L stdout) (\<lambda>u. sreturn True)
           else sreturn False)))))"

definition lock :: "unit M" where
  "lock s =
     sbind (performCommandLineOperation [JStr (bw_app_location s), JStr ''lock''])
       (\<lambda>r. sreturn ()) s"

text \<open>The \<^verbatim>\<open>items\<close> property parses the listing and returns the empty list.\<close>

definition items :: "stdlib \<Rightarrow> item option list option M" where
  "items L s =
     (case bw_session_id s of
        None \<Rightarrow> (Inr None, s)
      | Some sid \<Rightarrow>
          sbind (performCommandLineOperation
                   [JStr (bw_app_location s), JStr ''list'', JStr ''items'', JStr ''--session'',
                    JStr sid])
            (\<lambda>(code, stdout, stderr).
               if code = 0 then sbind (lift_e (json_loads L stdout)) (\<lambda>content. sreturn (Some []))
               else sreturn (Some [])) s)"

text \<open>\<^verbatim>\<open>__getitem__\<close>: \<open>name\<close> is any value; only a string is searched for.\<close>

definition Bitwarden_getitem :: "stdlib \<Rightarrow> json \<Rightarrow> item option list M" where
  "Bitwarden_getitem L name s =
     (case bw_session_id s of
        None \<Rightarrow> (Inr [], s)
      | Some sid \<Rightarrow>
          if \<not> is_JStr name then (Inr [], s)
          else
            sbind (performCommandLineOperation
                     [JStr (bw_app_location s), JStr ''list'', JStr ''items'', JStr ''--search'',
                      name, JStr ''--session'', JStr sid])
              (\<lambda>(code, stdout, stderr).
                 if code = 0 then
                   lift_e (ebind (json_loads L stdout) (\<lambda>item_dict_list.
                           ebind (py_iter item_dict_list) (mapE get_bitwarden_item)))
                 else sreturn []) s)"

text \<open>
  The \<^verbatim>\<open>orgs\<close> property; \<open>orgs_of_output\<close> is what it makes of the exit code and the
  output of the listing.
\<close>

definition orgs_of_output :: "stdlib \<Rightarrow> int \<Rightarrow> string \<Rightarrow> error + BitwardenOrganization list" where
  "orgs_of_output L code stdout =
     (if code = 0 then
        ebind (json_loads L stdout) (\<lambda>l.
        ebind (py_iter l) (mapE BitwardenOrganization_init))
      else Inr [])"

definition orgs :: "stdlib \<Rightarrow> BitwardenOrganization list option M" where
  "orgs L s =
     (case bw_session_id s of
        None \<Rightarrow> (Inr None, s)
      | Some sid \<Rightarrow>
          sbind (performCommandLineOperation
                   [JStr (bw_app_location s), JStr ''list'', JStr ''organizations'',
                    JStr ''--session'', JStr sid])
            (\<lambda>(code, stdout, stderr).
               lift_e (ebind (orgs_of_output L code stdout) (\<lambda>os. Inr (Some os)))) s)"

definition collections :: "stdlib \<Rightarrow> BitwardenCollection list option M" where
  "collections L s =
     (case bw_session_id s of
        None \<Rightarrow> (Inr None, s)
      | Some sid \<Rightarrow>
          sbind (performCommandLineOperation
                   [JStr (bw_app_location s), JStr ''list'', JStr ''collections'',
                    JStr ''--session'', JStr sid])
            (\<lambda>(code, stdout, stderr).
               if code = 0 then
                 lift_e (ebind (json_loads L stdout) (\<lambda>l.
                         ebind (py_iter l) (\<lambda>ds.
                         ebind (mapE BitwardenCollection_init ds) (\<lambda>cs. Inr (Some cs)))))
               else sreturn (Some [])) s)"

text \<open>
  The two export operations. \<^verbatim>\<open>if encrypt_password:\<close> is false for \<^verbatim>\<open>None\<close> and for
  the empty string.
\<close>

definition password_args :: "string option \<Rightarrow> json list" where
  "password_args encrypt_password =
     (case encrypt_password of
        None \<Rightarrow> []
      | Some p \<Rightarrow> if p = [] then [] else [JStr ''--password'', JStr p])"

definition exportPersonalVault :: "string \<Rightarrow> string \<Rightarrow> string option \<Rightarrow> bool M" where
  "exportPersonalVault path format encrypt_password s =
     (case bw_session_id s of
        None \<Rightarrow> (Inr False, s)
      | Some sid \<Rightarrow>
          if format \<notin> set [''json'', ''encrypted_json'', ''csv'']
          then (Inl InvalidArgumentsException, s)
          else if format = ''encrypted_json'' \<and> encrypt_password = None
          then (Inl NoEncryptionPasswordException, s)
          else
            sbind (performCommandLineOperation
                     ([JStr (bw_app_location s), JStr ''export'', JStr ''--format'', JStr format,
                       JStr ''--output'', JStr path, JStr ''--session'', JStr sid]
                      @ password_args encrypt_password))
              (\<lambda>(code, stdout, stderr). if code = 0 then sreturn True else sreturn False) s)"

definition exportCollections :: "string \<Rightarrow> json \<Rightarrow> string \<Rightarrow> string option \<Rightarrow> bool M" where
  "exportCollections path organization_id format encrypt_password s =
     (case bw_session_id s of
        None \<Rightarrow> (Inr False, s)
      | Some sid \<Rightarrow>
          if format \<notin> set [''json'', ''encrypted_json'', ''csv'']
          then (Inl InvalidArgumentsException, s)
          else if format = ''encrypted_json'' \<and> encrypt_password = None
          then (Inl NoEncryptionPasswordException, s)
          else
            sbind (performCommandLineOperation
                     ([JStr (bw_app_location s), JStr ''export'', JStr ''--format'', JStr format,
                       JStr ''--output'', JStr path, JStr ''--session'', JStr sid,
                       JStr ''--organizationid'', organization_id]
                      @ password_args encrypt_password))
              (\<lambda>(code, stdout, stderr). if code = 0 then sreturn True else sreturn False) s)"

text \<open>
  \<^verbatim>\<open>exportAll\<close>. The test \<^verbatim>\<open>org.type not in [OWNER.value, ADMIN.value]\<close> and the name
  of an organization's file, then the loop over the organizations, then the method.
\<close>

definition org_selected :: "BitwardenOrganization \<Rightarrow> bool" where
  "org_selected org =
     (py_eq (org_type org) (JInt (OrganizationUserTypes_value OWNER)) \<or>
      py_eq (org_type org) (JInt (OrganizationUserTypes_value ADMIN)))"

definition personal_path :: "stdlib \<Rightarrow> string \<Rightarrow> json \<Rightarrow> string \<Rightarrow> string \<Rightarrow> string" where
  "personal_path L dir_path email timeStr format =
     path_join dir_path (py_str L email @ ''-'' @ timeStr @ ''.'' @ format)"

definition org_path ::
  "stdlib \<Rightarrow> string \<Rightarrow> json \<Rightarrow> json \<Rightarrow> string \<Rightarrow> string \<Rightarrow> string" where
  "org_path L dir_path email name timeStr format =
     path_join dir_path
       (py_str L email @ ''-'' @ py_str L name @ ''-'' @ timeStr @ ''.'' @ format)"

fun exportAll_loop ::
  "stdlib \<Rightarrow> string \<Rightarrow> json \<Rightarrow> string \<Rightarrow> string \<Rightarrow> string option \<Rightarrow>
   BitwardenOrganization list \<Rightarrow> bool M" where
  "exportAll_loop L dir_path email timeStr format encrypt_password [] = sreturn True"
| "exportAll_loop L dir_path email timeStr format encrypt_password (org # rest) =
     (if \<not> org_selected org
      then exportAll_loop L dir_path email timeStr format encrypt_password rest
      else
        sbind (exportCollections (org_path L dir_path email (org_name org) timeStr format)
                 (org_id org) format encrypt_password)
          (\<lambda>ok. if \<not> ok then sreturn False
                else exportAll_loop L dir_path email timeStr format encrypt_password rest))"

definition exportAll :: "stdlib \<Rightarrow> string \<Rightarrow> string \<Rightarrow> string option \<Rightarrow> bool M" where
  "exportAll L dir_path format encrypt_password s =
     (case bw_session_id s of
        None \<Rightarrow> (Inr False, s)
      | Some sid \<Rightarrow>
          sbind (\<lambda>s. if \<not> path_exists s dir_path then makedirs dir_path s else (Inr (), s))
            (\<lambda>u s. if \<not> path_isdir s dir_path then (Inr False, s)
               else
                 sbind (status L) (\<lambda>st s.
                   let timeStr = now s in
                   sbind (lift_e (getitem st ''userEmail'')) (\<lambda>email.
                   sbind (exportPersonalVault
                            (personal_path L dir_path email timeStr format)
                            format encrypt_password) (\<lambda>ok.
                     if \<not> ok then sreturn False
                     else
                       sbind (orgs L) (\<lambda>os.
                         case os of
                           None \<Rightarrow> raise TypeError
                         | Some l \<Rightarrow>
                             exportAll_loop L dir_path email timeStr format
                               encrypt_password l))) s) s) s)"

section \<open>app/bitwarden.py\<close>

text \<open>
  The two authenticator classes; the API-key class inherits the constructor of the password
  class. \<open>auth_account\<close> is the account's configuration as read from the JSON file.
  The \<^verbatim>\<open>Bitwarden\<close> instance an authenticator holds is the one of the state.
\<close>

datatype authenticator_class = BitwardenPasswordAuthenticator | BitwardenApiKeyAuthenticator

record authenticator =
  auth_class :: authenticator_class
  auth_account :: json
  auth_url :: json

definition BitwardenPasswordAuthenticator_init ::
  "stdlib \<Rightarrow> authenticator_class \<Rightarrow> json \<Rightarrow> json \<Rightarrow> json \<Rightarrow> authenticator M" where
  "BitwardenPasswordAuthenticator_init L cls acct_config server_url root_ca_path =
     sbind (Bitwarden_init L ''bw'' server_url root_ca_path)
       (\<lambda>u. sreturn \<lparr>auth_class = cls, auth_account = acct_config, auth_url = server_url\<rparr>)"

text \<open>\<^verbatim>\<open>key in conf\<close>: key membership for a dictionary, a substring test for a string,
  an element test for a list.\<close>

fun py_contains :: "json \<Rightarrow> string \<Rightarrow> error + bool" where
  "py_contains (JObj kvs) k = Inr (k \<in> fst ` set kvs)"
| "py_contains (JStr s) k = Inr (str_contains k s)"
| "py_contains (JArr xs) k = Inr (list_ex (\<lambda>x. py_eq x (JStr k)) xs)"
| "py_contains _ k = Inl TypeError"

definition getAuthenticator :: "stdlib \<Rightarrow> json \<Rightarrow> json \<Rightarrow> json \<Rightarrow> authenticator M" where
  "getAuthenticator L acct_config server_url root_ca_path =
     sbind (lift_e (ebind (py_contains acct_config ''client_id'') (\<lambda>a.
                    if a then py_contains acct_config ''client_secret'' else Inr False)))
       (\<lambda>both.
          if both then
            BitwardenPasswordAuthenticator_init L BitwardenApiKeyAuthenticator
              acct_config server_url root_ca_path
          else
            BitwardenPasswordAuthenticator_init L BitwardenPasswordAuthenticator
              acct_config server_url root_ca_path)"

text \<open>\<^verbatim>\<open>unlockVault\<close> of either class.\<close>

definition unlockVault :: "stdlib \<Rightarrow> authenticator \<Rightarrow> json \<Rightarrow> bool M" where
  "unlockVault L self pw =
     (case auth_class self of
        BitwardenPasswordAuthenticator \<Rightarrow>
          sbind (lift_e (getitem (auth_account self) ''email'')) (\<lambda>email.
            loginWithPassword L email pw 5)
      | BitwardenApiKeyAuthenticator \<Rightarrow>
          sbind (lift_e (getitem (auth_account self) ''client_id'')) (\<lambda>client_id.
          sbind (lift_e (getitem (auth_account self) ''client_secret'')) (\<lambda>client_secret.
          sbind (loginWithApiKey L client_id client_secret 5) (\<lambda>st.
            if \<not> st then
              sbind (lift_e (getitem (auth_account self) ''email'')) (\<lambda>email.
                raise (AuthenticationFailedException email (py_str L (auth_url self))))
            else unlock L pw))))"

section \<open>Notions used to state the properties\<close>

text \<open>
  The lines of a text that contain \<^verbatim>\<open>export\<close>, and the token of such a line as the
  specification describes it: the substring after the first \<^verbatim>\<open>=\<close>, with one leading
  and one trailing character stripped.
\<close>

definition export_lines :: "string \<Rightarrow> string list" where
  "export_lines content = filter (str_contains ''export'') (str_split (CHR 0x0A) content)"

definition token_of_line :: "string \<Rightarrow> string" where
  "token_of_line line = butlast (tl (tl (dropWhile (\<lambda>c. c \<noteq> CHR ''='') line)))"

text \<open>
  A response of a process that ran and failed. The command line of the status query. The
  events of \<open>k\<close> failed attempts of a command, the first of them numbered \<open>i\<close>: each one
  runs the command and then sleeps half a second times its number.
\<close>

fun failed :: "response \<Rightarrow> bool" where
  "failed (Exited c out err) = (c \<noteq> 0)"
| "failed SpawnFailed = False"

definition status_command :: "state \<Rightarrow> string list" where
  "status_command s =
     [bw_app_location s, ''status''] @
     (case bw_session_id s of None \<Rightarrow> [] | Some sid \<Rightarrow> [''--session'', sid])"

fun failed_attempts :: "string list \<Rightarrow> (string \<times> string) list \<Rightarrow> int \<Rightarrow> nat \<Rightarrow> event list" where
  "failed_attempts cmd env i 0 = []"
| "failed_attempts cmd env i (Suc k) =
     Run cmd env # Sleep (0.5 * real_of_int i) # failed_attempts cmd env (i + 1) k"

text \<open>
  The exports a trace shows: a run of the \<^verbatim>\<open>export\<close> command is an export of the personal
  vault to its output path, or, with \<^verbatim>\<open>--organizationid\<close>, of that organization. The
  extension of a path is what follows its last dot.
\<close>

datatype export = PersonalExport string | OrganizationExport string string

fun export_path :: "export \<Rightarrow> string" where
  "export_path (PersonalExport path) = path"
| "export_path (OrganizationExport oid path) = path"

fun export_of :: "event \<Rightarrow> export option" where
  "export_of (Run (loc # sub # f # fmt # ou # path # ss # sid # opts) env) =
     (if sub = ''export'' then
        Some (case opts of
                flag # oid # rest \<Rightarrow>
                  if flag = ''--organizationid'' then OrganizationExport oid path
                  else PersonalExport path
              | _ \<Rightarrow> PersonalExport path)
      else None)"
| "export_of _ = None"

fun exports :: "event list \<Rightarrow> export list" where
  "exports [] = []"
| "exports (e # evs) = (case export_of e of None \<Rightarrow> exports evs | Some x \<Rightarrow> x # exports evs)"

definition file_ext :: "string \<Rightarrow> string" where
  "file_ext path = rev (takeWhile (\<lambda>c. c \<noteq> CHR ''.'') (rev path))"

text \<open>The export an organization gets from \<^verbatim>\<open>exportAll\<close>.\<close>

definition org_export ::
  "stdlib \<Rightarrow> string \<Rightarrow> json \<Rightarrow> string \<Rightarrow> string \<Rightarrow> BitwardenOrganization \<Rightarrow> export" where
  "org_export L dir_path email timeStr format org =
     OrganizationExport (the_JStr (org_id org))
       (org_path L dir_path email (org_name org) timeStr format)"

text \<open>What a state keeps across the operations of an export.\<close>

definition same_client :: "state \<Rightarrow> state \<Rightarrow> bool" where
  "same_client s s' \<longleftrightarrow>
     bw_session_id s' = bw_session_id s \<and> bw_app_location s' = bw_app_location s \<and>
     now s' = now s \<and> environ s' = environ s"

text \<open>
  The states a \<^verbatim>\<open>Bitwarden\<close> instance can be in: the one its constructor leaves when it
  returns, and from there the state after any call of a method or property of the class,
  whether it returns or raises; between two calls anything but the fields of the instance
  may change (the environment, the file system, the clock, what the client will answer).
\<close>

datatype call =
    Get_status
  | Get_serverUrl
  | Set_serverUrl json
  | Call_isClientLatest
  | Call_loginWithPassword json json int
  | Call_loginWithApiKey json json int
  | Call_logout
  | Call_unlock json
  | Call_lock
  | Call_sync
  | Get_items
  | Call_getitem json
  | Get_orgs
  | Get_collections
  | Call_exportAll string string "string option"
  | Call_exportPersonalVault string string "string option"
  | Call_exportCollections string json string "string option"

fun after :: "stdlib \<Rightarrow> call \<Rightarrow> state \<Rightarrow> state" where
  "after L Get_status s = snd (status L s)"
| "after L Get_serverUrl s = s"
| "after L (Set_serverUrl u) s = snd (serverUrl_set L u s)"
| "after L Call_isClientLatest s = snd (isClientLatest L s)"
| "after L (Call_loginWithPassword u p n) s = snd (loginWithPassword L u p n s)"
| "after L (Call_loginWithApiKey i k n) s = snd (loginWithApiKey L i k n s)"
| "after L Call_logout s = snd (logout s)"
| "after L (Call_unlock p) s = snd (unlock L p s)"
| "after L Call_lock s = snd (lock s)"
| "after L Call_sync s = snd (sync s)"
| "after L Get_items s = snd (items L s)"
| "after L (Call_getitem n) s = snd (Bitwarden_getitem L n s)"
| "after L Get_orgs s = snd (orgs L s)"
| "after L Get_collections s = snd (collections L s)"
| "after L (Call_exportAll d f p) s = snd (exportAll L d f p s)"
| "after L (Call_exportPersonalVault d f p) s = snd (exportPersonalVault d f p s)"
| "after L (Call_exportCollections d i f p) s = snd (exportCollections d i f p s)"

inductive reachable :: "stdlib \<Rightarrow> state \<Rightarrow> bool" for L :: stdlib where
  init: "Bitwarden_init L bwCliLocation u ca_cert_path s0 = (Inr (), s) \<Longrightarrow> reachable L s"
| call: "reachable L s \<Longrightarrow> reachable L (after L c s)"
| world: "reachable L s \<Longrightarrow> serverUrl_field s' = serverUrl_field s \<Longrightarrow>
     bw_session_id s' = bw_session_id s \<Longrightarrow> bw_app_location s' = bw_app_location s \<Longrightarrow>
     reachable L s'"

text \<open>An operation that leaves the field \<^verbatim>\<open>_serverUrl\<close> as it is, whatever its outcome.\<close>

definition keeps :: "'a M \<Rightarrow> bool" where
  "keeps m \<longleftrightarrow> (\<forall>s. serverUrl_field (snd (m s)) = serverUrl_field s)"

section \<open>Sample inputs\<close>

text \<open>
  Concrete inputs for the examples below: the texts the client prints, a table of what
  \<^verbatim>\<open>json.loads\<close> returns for them, and states of a session client.
\<close>

definition dq :: string where
  "dq = [CHR 0x22]"

definition nl :: string where
  "nl = [CHR 0x0A]"

definition status_text :: "string \<Rightarrow> string" where
  "status_text st =
     ''{'' @ dq @ ''serverUrl'' @ dq @ '':'' @ dq @ ''https://vault.bitwarden.com'' @ dq @ '','' @
     dq @ ''userEmail'' @ dq @ '':'' @ dq @ ''a@b.c'' @ dq @ '','' @
     dq @ ''status'' @ dq @ '':'' @ dq @ st @ dq @ ''}''"

definition status_json :: "string \<Rightarrow> json" where
  "status_json st =
     JObj [(''serverUrl'', JStr ''https://vault.bitwarden.com''), (''userEmail'', JStr ''a@b.c''),
           (''status'', JStr st)]"

definition org_text :: "string \<Rightarrow> string \<Rightarrow> string \<Rightarrow> string" where
  "org_text i n t =
     ''{'' @ dq @ ''id'' @ dq @ '':'' @ dq @ i @ dq @ '','' @
     dq @ ''name'' @ dq @ '':'' @ dq @ n @ dq @ '','' @
     dq @ ''status'' @ dq @ '':2,'' @ dq @ ''type'' @ dq @ '':'' @ t @ '','' @
     dq @ ''enabled'' @ dq @ '':true}''"

definition org_json :: "string \<Rightarrow> string \<Rightarrow> int \<Rightarrow> json" where
  "org_json i n t =
     JObj [(''id'', JStr i), (''name'', JStr n), (''status'', JInt 2), (''type'', JInt t),
           (''enabled'', JBool True)]"

definition orgs_text :: string where
  "orgs_text =
     ''['' @ org_text ''o1'' ''Acme'' ''0'' @ '','' @ org_text ''o2'' ''Club'' ''2'' @ '','' @
     org_text ''o3'' ''Shop'' ''1'' @ '']''"

definition orgs_json :: json where
  "orgs_json = JArr [org_json ''o1'' ''Acme'' 0, org_json ''o2'' ''Club'' 2, org_json ''o3'' ''Shop'' 1]"

definition sample_loads :: "string \<Rightarrow> error + json" where
  "sample_loads s =
     (if s = status_text ''unauthenticated'' then Inr (status_json ''unauthenticated'')
      else if s = status_text ''locked'' then Inr (status_json ''locked'')
      else if s = status_text ''unlocked'' then Inr (status_json ''unlocked'')
      else if s = orgs_text then Inr orgs_json
      else Inl JSONDecodeError)"

text \<open>The sample texts are ASCII, which UTF-8 decodes to itself; no sample prints a number
  or a container with \<^verbatim>\<open>%s\<close>.\<close>

definition sample_lib :: stdlib where
  "sample_lib = \<lparr>json_loads = sample_loads, decode_utf8 = Inr, py_repr = (\<lambda>v. [])\<rparr>"

text \<open>A client that holds no session, and one that holds the session \<^verbatim>\<open>tok\<close>.\<close>

definition fresh :: state where
  "fresh = \<lparr>serverUrl_field = None, bw_session_id = None, bw_app_location = ''bw'',
     environ = [(''HOME'', ''/root'')], script = [], trace = [],
     fs = [(''out'', Dir)], fs_writable = True, now = ''20240131-0930''\<rparr>"

definition unlocked :: state where
  "unlocked = fresh\<lparr>bw_session_id := Some ''tok''\<rparr>"

text \<open>What a successful login prints, and a text with two \<^verbatim>\<open>export\<close> lines.\<close>

definition login_stdout :: string where
  "login_stdout =
     ''You are logged in!'' @ nl @ ''$ export BW_SESSION='' @ dq @ ''abc123'' @ dq @ nl @
     ''> $env:BW_SESSION='' @ dq @ ''abc123'' @ dq"


text \<open>Account configurations: with an API key whose two parts are empty strings, with a
  real API key, and with a password only.\<close>

definition acct_empty_key :: json where
  "acct_empty_key =
     JObj [(''email'', JStr ''a@b.c''), (''client_id'', JStr ''''), (''client_secret'', JStr '''')]"

definition acct_key :: json where
  "acct_key =
     JObj [(''email'', JStr ''a@b.c''), (''client_id'', JStr ''user.1''),
           (''client_secret'', JStr ''s3cret'')]"

definition acct_password :: json where
  "acct_password = JObj [(''email'', JStr ''a@b.c'')]"

definition vault_url :: json where
  "vault_url = JStr ''https://vault.bitwarden.com''"

definition responds :: "response list \<Rightarrow> state \<Rightarrow> state" where
  "responds rs s = s\<lparr>script := rs\<rparr>"

text \<open>The answers of the client to a status query before any login, and to three login
  attempts of which the first two fail.\<close>

definition unauthenticated :: response where
  "unauthenticated = Exited 0 (status_text ''unauthenticated'') []"

definition login_refused :: response where
  "login_refused = Exited 1 [] ''Username or password is incorrect. Try again.''"

text \<open>
  The answers of the client during an export of everything: the status of an unlocked
  vault, the export of the personal vault, the listing of three organizations (owner of
  Acme, user of Club, admin of Shop), and the exports of organizations.
\<close>

definition status_unlocked :: response where
  "status_unlocked = Exited 0 (status_text ''unlocked'') []"

definition export_done :: response where
  "export_done = Exited 0 ''Saved'' []"

definition export_refused :: response where
  "export_refused = Exited 1 [] ''Export failed.''"

definition three_orgs :: response where
  "three_orgs = Exited 0 orgs_text []"

text \<open>A client constructed for another server than the one the executable was set to,
  and the answer of the executable to the change of server.\<close>

definition other_url :: json where
  "other_url = JStr ''https://vault.example.org''"

definition config_done :: response where
  "config_done = Exited 0 ''Saved setting `config`.'' []"

definition configured :: state where
  "configured = fresh\<lparr>trace :=
     [Run [''bw'', ''status''] [(''HOME'', ''/root'')],
      Run [''bw'', ''status''] [(''HOME'', ''/root'')],
      Run [''bw'', ''config'', ''server'', ''https://vault.example.org'']
        [(''HOME'', ''/root'')]]\<rparr>"

section \<open>Basic facts\<close>

lemmas monad_defs = sbind_def sreturn_def raise_def lift_e_def ebind_def

declare loginWithPassword_loop.simps [simp del]

declare loginWithApiKey_loop.simps [simp del]

lemma str_index_takeWhile:
  "c \<in> set xs \<Longrightarrow> str_index xs c = Inr (length (takeWhile (\<lambda>x. x \<noteq> c) xs))"
  by (induction xs) (auto simp: ebind_def)

lemma str_index_absent: "c \<notin> set xs \<Longrightarrow> str_index xs c = Inl ValueError"
  by (induction xs) (auto simp: ebind_def)

lemma slice_token:
  assumes "raw \<noteq> []"
  shows "slice raw 2 (int (length raw) - 1) = butlast (tl (tl raw))"
proof -
  from assms have n: "1 \<le> length raw" by (cases raw) auto
  have "slice raw 2 (int (length raw) - 1) = drop (nat (min 2 (int (length raw)))) (butlast raw)"
    using n by (simp add: slice_def Let_def butlast_conv_take nat_diff_distrib')
  also have "\<dots> = drop 2 (butlast raw)"
  proof (cases "2 \<le> length raw")
    case True
    then show ?thesis by (simp add: min_def)
  next
    case False
    with n have "length raw = 1" by simp
    then show ?thesis by (cases raw) auto
  qed
  also have "\<dots> = butlast (tl (tl raw))"
    by (simp add: numeral_2_eq_2 drop_Suc butlast_tl)
  finally show ?thesis .
qed

lemma extract_line_token:
  assumes "CHR ''='' \<in> set line"
  shows "slice (drop (length (takeWhile (\<lambda>x. x \<noteq> CHR ''='') line)) line) 2
           (int (length line - length (takeWhile (\<lambda>x. x \<noteq> CHR ''='') line)) - 1)
         = token_of_line line"
proof -
  have d: "drop (length (takeWhile (\<lambda>x. x \<noteq> CHR ''='') line)) line
           = dropWhile (\<lambda>x. x \<noteq> CHR ''='') line"
    by (simp add: dropWhile_eq_drop)
  have ne: "dropWhile (\<lambda>x. x \<noteq> CHR ''='') line \<noteq> []"
    using assms by (simp add: dropWhile_eq_Nil_conv)
  have "length line - length (takeWhile (\<lambda>x. x \<noteq> CHR ''='') line)
          = length (dropWhile (\<lambda>x. x \<noteq> CHR ''='') line)"
    by (simp add: dropWhile_eq_drop)
  then show ?thesis
    unfolding d token_of_line_def using slice_token [OF ne] by simp
qed

text \<open>Each line with \<^verbatim>\<open>export\<close> overwrites the session id: the last one stays.\<close>

lemma extract_lines_last:
  "\<forall>line \<in> set (filter (str_contains ''export'') ls). CHR ''='' \<in> set line \<Longrightarrow>
   extract_lines ls s =
     (Inr (), if filter (str_contains ''export'') ls = [] then s
              else s\<lparr>bw_session_id :=
                     Some (token_of_line (last (filter (str_contains ''export'') ls)))\<rparr>)"
proof (induction ls arbitrary: s)
  case Nil
  then show ?case by simp
next
  case (Cons line ls)
  show ?case
  proof (cases "str_contains ''export'' line")
    case False
    with Cons show ?thesis by simp
  next
    case True
    with Cons.prems have eq: "CHR ''='' \<in> set line" by simp
    from Cons.prems
    have rest: "\<forall>l \<in> set (filter (str_contains ''export'') ls). CHR ''='' \<in> set l"
      by simp
    show ?thesis
      using True Cons.IH [OF rest]
      by (simp add: str_index_takeWhile [OF eq] extract_line_token [OF eq] Let_def)
  qed
qed

lemma extractSessionFromStdOut_eq:
  assumes "decode_utf8 L stdout = Inr content"
    and "\<forall>line \<in> set (export_lines content). CHR ''='' \<in> set line"
  shows "extractSessionFromStdOut L stdout s =
     (Inr (), if export_lines content = [] then s
              else s\<lparr>bw_session_id := Some (token_of_line (last (export_lines content)))\<rparr>)"
  using assms extract_lines_last [of "str_split (CHR 0x0A) content" s]
  by (simp add: extractSessionFromStdOut_def monad_defs export_lines_def)

lemma export_lines_login_stdout:
  "export_lines login_stdout = [''$ export BW_SESSION='' @ dq @ ''abc123'' @ dq]"
  by (simp add: export_lines_def login_stdout_def nl_def dq_def)

lemma perform_Exited:
  "list_all is_JStr cmd \<Longrightarrow> script s = Exited c out err # rs \<Longrightarrow>
   performCommandLineOperation cmd s =
     (Inr (c, out, err),
      s\<lparr>script := rs, trace := trace s @ [Run (map the_JStr cmd) (environ s)]\<rparr>)"
  by (simp add: performCommandLineOperation_def)

lemma status_Exited:
  "script s = Exited c out err # rs \<Longrightarrow>
   status L s =
     ((if c = 0 then json_loads L out else Inr JNull),
      s\<lparr>script := rs, trace := trace s @ [Run (status_command s) (environ s)]\<rparr>)"
  by (cases "bw_session_id s")
     (simp_all add: status_def status_command_def performCommandLineOperation_def monad_defs)

lemmas sample_defs = sample_lib_def sample_loads_def status_text_def status_json_def dq_def nl_def
  fresh_def unlocked_def responds_def vault_url_def

lemma authenticator_init_result:
  "BitwardenPasswordAuthenticator_init L cls acct server_url root_ca_path s = (Inr a, s') \<Longrightarrow>
   a = \<lparr>auth_class = cls, auth_account = acct, auth_url = server_url\<rparr> \<and>
   Bitwarden_init L ''bw'' server_url root_ca_path s = (Inr (), s')"
  by (auto simp: BitwardenPasswordAuthenticator_init_def monad_defs
        split: prod.splits sum.splits)

lemma init_sample:
  "Bitwarden_init sample_lib ''bw'' vault_url JNull
     (responds [Exited 0 (status_text ''unauthenticated'') []] fresh)
   = (Inr (), fresh\<lparr>trace := [Run [''bw'', ''status''] [(''HOME'', ''/root'')]]\<rparr>)"
  by (simp add: Bitwarden_init_def status_def performCommandLineOperation_def monad_defs
        sample_defs)

lemma loginWithPassword_loop_failures:
  "list_all failed rs \<Longrightarrow> script s = rs @ rest \<Longrightarrow> 1 \<le> i \<Longrightarrow>
   i + int (length rs) \<le> n + 1 \<Longrightarrow>
   loginWithPassword_loop L (JStr u) (JStr p) n i rv s =
   loginWithPassword_loop L (JStr u) (JStr p) n (i + int (length rs)) rv
     (s\<lparr>script := rest,
        trace := trace s @
          failed_attempts [bw_app_location s, ''login'', u, p] (environ s) i (length rs)\<rparr>)"
proof (induction rs arbitrary: i s)
  case Nil
  from Nil(2) have "s\<lparr>script := rest\<rparr> = s" by (simp add: Nil(2) [symmetric])
  then show ?case by simp
next
  case (Cons r rs)
  from Cons.prems obtain c out err where r: "r = Exited c out err" and c: "c \<noteq> 0"
    by (cases r) auto
  let ?s1 = "s\<lparr>script := rs @ rest,
     trace := trace s @ [Run [bw_app_location s, ''login'', u, p] (environ s),
                         Sleep (0.5 * real_of_int i)]\<rparr>"
  have step: "loginWithPassword_loop L (JStr u) (JStr p) n i rv s =
              loginWithPassword_loop L (JStr u) (JStr p) n (i + 1) rv ?s1"
    using Cons.prems r c
    by (subst loginWithPassword_loop.simps)
       (simp add: performCommandLineOperation_def sleep_def)
  have "loginWithPassword_loop L (JStr u) (JStr p) n (i + 1) rv ?s1 =
        loginWithPassword_loop L (JStr u) (JStr p) n (i + 1 + int (length rs)) rv
          (?s1\<lparr>script := rest,
             trace := trace ?s1 @
               failed_attempts [bw_app_location ?s1, ''login'', u, p] (environ ?s1) (i + 1)
                 (length rs)\<rparr>)"
    using Cons.prems by (intro Cons.IH) auto
  with step show ?case by (simp add: add.assoc)
qed

lemma loginWithPassword_loop_success:
  "script s = Exited 0 out err # rest \<Longrightarrow> i \<le> n \<Longrightarrow>
   loginWithPassword_loop L (JStr u) (JStr p) n i rv s =
   sbind (extractSessionFromStdOut L out) (\<lambda>u. sbind sync (\<lambda>r. sreturn True))
     (s\<lparr>script := rest,
        trace := trace s @ [Run [bw_app_location s, ''login'', u, p] (environ s)]\<rparr>)"
  by (subst loginWithPassword_loop.simps) (simp add: performCommandLineOperation_def)

lemma loginWithPassword_loop_exhausted:
  "n < i \<Longrightarrow> loginWithPassword_loop L u p n i rv s = (Inr rv, s)"
  by (subst loginWithPassword_loop.simps) simp

lemma loginWithPassword_unauthenticated:
  "script s = Exited 0 st_out st_err # rs \<Longrightarrow> json_loads L st_out = Inr st \<Longrightarrow>
   getitem st ''status'' = Inr (JStr ''unauthenticated'') \<Longrightarrow>
   loginWithPassword L u p n s =
   loginWithPassword_loop L u p n 1 False
     (s\<lparr>script := rs, trace := trace s @ [Run (status_command s) (environ s)]\<rparr>)"
  by (simp add: loginWithPassword_def status_Exited monad_defs)

lemma sync_no_session: "bw_session_id s = None \<Longrightarrow> sync s = (Inl VaultNotUnlockedException, s)"
  by (simp add: sync_def)

lemma sync_Exited:
  "bw_session_id s = Some sid \<Longrightarrow> script s = Exited c out err # rs \<Longrightarrow>
   sync s = (Inr (c = 0),
     s\<lparr>script := rs,
       trace := trace s @ [Run [bw_app_location s, ''sync'', ''--session'', sid] (environ s)]\<rparr>)"
  by (simp add: sync_def performCommandLineOperation_def monad_defs)

lemma then_True_not_False:
  "sbind m (\<lambda>u. sbind m2 (\<lambda>r. sreturn True)) s \<noteq> (Inr False, s')"
  by (auto simp: sbind_def sreturn_def split: prod.splits sum.splits)

lemma loginWithPassword_loop_False:
  "loginWithPassword_loop L u p n i rv s = (Inr False, s') \<Longrightarrow> \<not> rv \<Longrightarrow> 1 \<le> i \<Longrightarrow>
   \<exists>fails. list_all failed fails \<and> int (length fails) = max 0 (n + 1 - i) \<and>
     script s = fails @ script s' \<and>
     trace s' = trace s @
       failed_attempts [bw_app_location s, ''login'', the_JStr u, the_JStr p] (environ s) i
         (length fails)"
proof (induction L u p n i rv s rule: loginWithPassword_loop.induct)
  case (1 L u p n i rv s)
  show ?case
  proof (cases "i \<le> n")
    case False
    with "1.prems" have "s' = s"
      by (simp add: loginWithPassword_loop_exhausted)
    with False show ?thesis by (intro exI [of _ "[]"]) simp
  next
    case True
    let ?cmd = "[JStr (bw_app_location s), JStr ''login'', u, p]"
    from "1.prems"(1) True obtain c out err s1 where
      run: "performCommandLineOperation ?cmd s = (Inr (c, out, err), s1)"
      by (subst (asm) loginWithPassword_loop.simps)
         (auto split: prod.splits sum.splits)
    then have strs: "list_all is_JStr ?cmd"
      and sc: "script s \<noteq> []" 
      by (auto simp: performCommandLineOperation_def split: if_splits list.splits response.splits)
    from run obtain rs where s: "script s = Exited c out err # rs"
      and s1: "s1 = s\<lparr>script := rs,
          trace := trace s @ [Run (map the_JStr ?cmd) (environ s)]\<rparr>"
      by (auto simp: performCommandLineOperation_def split: if_splits list.splits response.splits)
    have c: "c \<noteq> 0"
    proof
      assume "c = 0"
      with "1.prems"(1) True run show False
        by (subst (asm) loginWithPassword_loop.simps) (simp add: then_True_not_False)
    qed
    from "1.prems"(3) have sl: "sleep (0.5 * real_of_int i) s1 =
        (Inr (), s1\<lparr>trace := trace s1 @ [Sleep (0.5 * real_of_int i)]\<rparr>)"
      by (simp add: sleep_def)
    let ?s2 = "s1\<lparr>trace := trace s1 @ [Sleep (0.5 * real_of_int i)]\<rparr>"
    from "1.prems"(1) True run c sl
    have rec: "loginWithPassword_loop L u p n (i + 1) rv ?s2 = (Inr False, s')"
      by (subst (asm) loginWithPassword_loop.simps) simp
    have "\<exists>fails. list_all failed fails \<and> int (length fails) = max 0 (n + 1 - (i + 1)) \<and>
       script ?s2 = fails @ script s' \<and>
       trace s' = trace ?s2 @
         failed_attempts [bw_app_location ?s2, ''login'', the_JStr u, the_JStr p] (environ ?s2)
           (i + 1) (length fails)"
      using "1.IH" [OF True run [symmetric] refl refl refl c sl [symmetric] refl rec "1.prems"(2)]
        "1.prems"(3) by simp
    then obtain fails where f: "list_all failed fails"
      "int (length fails) = max 0 (n + 1 - (i + 1))" "script ?s2 = fails @ script s'"
      "trace s' = trace ?s2 @
         failed_attempts [bw_app_location ?s2, ''login'', the_JStr u, the_JStr p] (environ ?s2)
           (i + 1) (length fails)"
      by blast
    show ?thesis
      using f s s1 c True
      by (intro exI [of _ "Exited c out err # fails"]) (simp add: max_def)
  qed
qed


lemma loginWithPassword_no_token:
  assumes "script s = Exited 0 st_out st_err # fails @ Exited 0 out err # rest"
    and "json_loads L st_out = Inr st"
    and "getitem st ''status'' = Inr (JStr ''unauthenticated'')"
    and "list_all failed fails" and "int (length fails) < retry_count"
    and "decode_utf8 L out = Inr content" and "export_lines content = []"
    and "bw_session_id s = None"
  shows "loginWithPassword L (JStr u) (JStr p) retry_count s =
     (Inl VaultNotUnlockedException,
      s\<lparr>script := rest,
        trace := trace s @ Run (status_command s) (environ s) #
          failed_attempts [bw_app_location s, ''login'', u, p] (environ s) 1 (length fails) @
          [Run [bw_app_location s, ''login'', u, p] (environ s)]\<rparr>)"
proof -
  let ?s1 = "s\<lparr>script := fails @ Exited 0 out err # rest,
                trace := trace s @ [Run (status_command s) (environ s)]\<rparr>"
  let ?s2 = "?s1\<lparr>script := Exited 0 out err # rest,
       trace := trace ?s1 @
          failed_attempts [bw_app_location ?s1, ''login'', u, p] (environ ?s1) 1 (length fails)\<rparr>"
  have "loginWithPassword L (JStr u) (JStr p) retry_count s =
        loginWithPassword_loop L (JStr u) (JStr p) retry_count 1 False ?s1"
    using assms(1-3) by (rule loginWithPassword_unauthenticated)
  also have "\<dots> = loginWithPassword_loop L (JStr u) (JStr p) retry_count
                      (1 + int (length fails)) False ?s2"
    using assms(4,5) by (intro loginWithPassword_loop_failures) auto
  also have "\<dots> = sbind (extractSessionFromStdOut L out) (\<lambda>u. sbind sync (\<lambda>r. sreturn True))
     (?s2\<lparr>script := rest,
        trace := trace ?s2 @ [Run [bw_app_location ?s2, ''login'', u, p] (environ ?s2)]\<rparr>)"
    using assms(5) by (intro loginWithPassword_loop_success) auto
  also have "\<dots> = (Inl VaultNotUnlockedException,
      s\<lparr>script := rest,
        trace := trace s @ Run (status_command s) (environ s) #
          failed_attempts [bw_app_location s, ''login'', u, p] (environ s) 1 (length fails) @
          [Run [bw_app_location s, ''login'', u, p] (environ s)]\<rparr>)"
    using assms(6,7,8)
    by (simp add: sbind_def extractSessionFromStdOut_eq [OF assms(6)] sync_no_session)
  finally show ?thesis .
qed


lemmas sample_defs2 = sample_defs unauthenticated_def login_refused_def login_stdout_def

lemma sample_status:
  "json_loads sample_lib (status_text ''unauthenticated'') = Inr (status_json ''unauthenticated'')"
  "getitem (status_json ''unauthenticated'') ''status'' = Inr (JStr ''unauthenticated'')"
  "decode_utf8 sample_lib x = Inr x"
  by (simp_all add: sample_lib_def sample_loads_def status_json_def)

lemma perform_result:
  "performCommandLineOperation cmd s = (r, s') \<Longrightarrow>
   environ s' = environ s \<and> bw_app_location s' = bw_app_location s \<and>
   (case r of
      Inl e \<Rightarrow> trace s' = trace s
    | Inr x \<Rightarrow> trace s' = trace s @ [Run (map the_JStr cmd) (environ s)])"
  by (auto simp: performCommandLineOperation_def
        split: if_splits list.splits response.splits)

lemma sleep_result:
  "sleep d s = (r, s') \<Longrightarrow>
   environ s' = environ s \<and> bw_app_location s' = bw_app_location s \<and>
   (\<forall>args env. Run args env \<in> set (trace s') \<longleftrightarrow> Run args env \<in> set (trace s)) \<and>
   (\<exists>evs. trace s' = trace s @ evs \<and> (\<forall>args env. Run args env \<notin> set evs))"
  by (auto simp: sleep_def split: if_splits)

text \<open>The loop of the API-key login leaves the environment alone, and every process it runs
  is the API-key login, run in that environment.\<close>

lemma loginWithApiKey_loop_frame:
  "loginWithApiKey_loop n i rv s = (r, s') \<Longrightarrow>
   environ s' = environ s \<and>
   (\<exists>evs. trace s' = trace s @ evs \<and>
      (\<forall>args env. Run args env \<in> set evs \<longrightarrow>
         args = [bw_app_location s, ''login'', ''--apikey''] \<and> env = environ s))"
proof (induction n i rv s rule: loginWithApiKey_loop.induct)
  case (1 n i rv s)
  let ?cmd = "[JStr (bw_app_location s), JStr ''login'', JStr ''--apikey'']"
  show ?case
  proof (cases "i \<le> n")
    case False
    with "1.prems" have "s' = s" by (subst (asm) loginWithApiKey_loop.simps) simp
    then show ?thesis by simp
  next
    case True
    obtain r1 s1 where run: "performCommandLineOperation ?cmd s = (r1, s1)"
      by (cases "performCommandLineOperation ?cmd s")
    note p = perform_result [OF run]
    show ?thesis
    proof (cases r1)
      case (Inl e)
      with "1.prems" True run have "s' = s1"
        by (subst (asm) loginWithApiKey_loop.simps) simp
      with p Inl show ?thesis by simp
    next
      case (Inr x)
      obtain c out err where x: "x = (c, out, err)" by (cases x)
      from p Inr have t1: "trace s1 = trace s @ [Run [bw_app_location s, ''login'', ''--apikey''] (environ s)]"
        by simp
      show ?thesis
      proof (cases "c = 0")
        case True
        with "1.prems" \<open>i \<le> n\<close> run Inr x have "s' = s1"
          by (subst (asm) loginWithApiKey_loop.simps) simp
        with p t1 show ?thesis by simp
      next
        case False
        obtain r2 s2 where sl: "sleep (0.5 * real_of_int i) s1 = (r2, s2)"
          by (cases "sleep (0.5 * real_of_int i) s1")
        note q = sleep_result [OF sl]
        from q obtain evs2 where t2: "trace s2 = trace s1 @ evs2"
          and nr: "\<forall>args env. Run args env \<notin> set evs2" by blast
        show ?thesis
        proof (cases r2)
          case (Inl e)
          with "1.prems" \<open>i \<le> n\<close> run Inr x False sl have "s' = s2"
            by (subst (asm) loginWithApiKey_loop.simps) simp
          with p q t1 t2 nr show ?thesis by auto
        next
          case (Inr u)
          with "1.prems" \<open>i \<le> n\<close> run \<open>r1 = Inr x\<close> x False sl
          have rec: "loginWithApiKey_loop n (i + 1) rv s2 = (r, s')"
            by (subst (asm) loginWithApiKey_loop.simps) simp
          from "1.IH" [OF \<open>i \<le> n\<close> run [symmetric] \<open>r1 = Inr x\<close> x [symmetric] refl False
              sl [symmetric] Inr rec]
          obtain evs3 where e3: "environ s' = environ s2" "trace s' = trace s2 @ evs3"
            "\<forall>args env. Run args env \<in> set evs3 \<longrightarrow>
               args = [bw_app_location s2, ''login'', ''--apikey''] \<and> env = environ s2"
            by blast
          have "trace s' = trace s @
              (Run [bw_app_location s, ''login'', ''--apikey''] (environ s) # evs2 @ evs3)"
            using e3 t1 t2 by simp
          moreover have "\<forall>args env. Run args env \<in>
               set (Run [bw_app_location s, ''login'', ''--apikey''] (environ s) # evs2 @ evs3) \<longrightarrow>
               args = [bw_app_location s, ''login'', ''--apikey''] \<and> env = environ s"
            using e3 nr p q by auto
          moreover have "environ s' = environ s" using e3 p q by simp
          ultimately show ?thesis by blast
        qed
      qed
    qed
  qed
qed

lemma loginWithApiKey_unauthenticated:
  assumes "script s = Exited 0 st_out st_err # rs" and "json_loads L st_out = Inr st"
    and "getitem st ''status'' = Inr (JStr ''unauthenticated'')"
  shows "loginWithApiKey L (JStr cid) (JStr sec) n s =
     sbind (loginWithApiKey_loop n 1 False) (\<lambda>ret_value.
       sbind (environ_del ''BW_CLIENTID'') (\<lambda>u.
       sbind (environ_del ''BW_CLIENTSECRET'') (\<lambda>u. sreturn ret_value)))
     (s\<lparr>script := rs, trace := trace s @ [Run (status_command s) (environ s)],
        environ := AList.update ''BW_CLIENTSECRET'' sec
                     (AList.update ''BW_CLIENTID'' cid (environ s))\<rparr>)"
  using assms
  by (simp add: loginWithApiKey_def status_Exited monad_defs environ_set_def)

lemma exports_append [simp]: "exports (xs @ ys) = exports xs @ exports ys"
  by (induction xs) (auto split: option.splits)

lemma export_of_personal:
  "export_of (Run (map the_JStr ([JStr loc, JStr ''export'', JStr ''--format'', JStr format,
       JStr ''--output'', JStr path, JStr ''--session'', JStr sid] @ password_args pw)) env)
   = Some (PersonalExport path)"
  by (simp add: password_args_def split: option.splits)

lemma export_of_organization:
  "export_of (Run (map the_JStr ([JStr loc, JStr ''export'', JStr ''--format'', JStr format,
       JStr ''--output'', JStr path, JStr ''--session'', JStr sid,
       JStr ''--organizationid'', oid] @ password_args pw)) env)
   = Some (OrganizationExport (the_JStr oid) path)"
  by (simp add: password_args_def split: option.splits)

lemma same_client_refl [simp]: "same_client s s"
  by (simp add: same_client_def)

lemma same_client_trans: "same_client s s1 \<Longrightarrow> same_client s1 s2 \<Longrightarrow> same_client s s2"
  by (simp add: same_client_def)

lemma perform_cases:
  assumes "performCommandLineOperation cmd s = (r, s')"
  shows "same_client s s' \<and>
    (case r of
       Inl e \<Rightarrow> trace s' = trace s
     | Inr (c, out, err) \<Rightarrow>
         list_all is_JStr cmd \<and> script s = Exited c out err # script s' \<and>
         trace s' = trace s @ [Run (map the_JStr cmd) (environ s)])"
  using assms
  by (auto simp: performCommandLineOperation_def same_client_def
        split: if_splits list.splits response.splits)

lemma exportPersonalVault_cases:
  assumes "exportPersonalVault path format pw s = (r, s')"
  shows "same_client s s' \<and>
    (\<exists>evs. trace s' = trace s @ evs \<and>
       (exports evs = [] \<or> exports evs = [PersonalExport path]) \<and>
       (r = Inr True \<longrightarrow> exports evs = [PersonalExport path] \<and>
          (\<exists>out err. script s = Exited 0 out err # script s')))"
proof (cases "bw_session_id s")
  case None
  with assms show ?thesis by (auto simp: exportPersonalVault_def)
next
  case (Some sid)
  let ?cmd = "[JStr (bw_app_location s), JStr ''export'', JStr ''--format'', JStr format,
       JStr ''--output'', JStr path, JStr ''--session'', JStr sid] @ password_args pw"
  show ?thesis
  proof (cases "format \<notin> set [''json'', ''encrypted_json'', ''csv''] \<or>
                format = ''encrypted_json'' \<and> pw = None")
    case True
    with assms Some have "s' = s \<and> r \<noteq> Inr True"
      by (auto simp: exportPersonalVault_def split: if_splits)
    then show ?thesis by simp
  next
    case False
    obtain r1 s1 where run: "performCommandLineOperation ?cmd s = (r1, s1)"
      by (cases "performCommandLineOperation ?cmd s")
    note p = perform_cases [OF run]
    from False have v: "(format \<notin> set [''json'', ''encrypted_json'', ''csv'']) = False"
      "(format = ''encrypted_json'' \<and> pw = None) = False"
      by blast+
    have unf: "sbind (performCommandLineOperation ?cmd)
              (\<lambda>(code, stdout, stderr). if code = 0 then sreturn True else sreturn False) s = (r, s')"
      using assms unfolding exportPersonalVault_def Some option.case v if_False .
    show ?thesis
    proof (cases r1)
      case (Inl e)
      with unf run have "s' = s1 \<and> r = Inl e"
        by (auto simp: monad_defs)
      with p Inl show ?thesis by simp
    next
      case (Inr x)
      obtain c out err where x: "x = (c, out, err)" by (cases x)
      with unf run Inr have r: "s' = s1 \<and> r = Inr (c = 0)"
        by (auto simp: monad_defs split: if_splits)
      from p Inr x have t: "trace s1 = trace s @ [Run (map the_JStr ?cmd) (environ s)]"
        and sc: "script s = Exited c out err # script s1"
        by simp_all
      have "exports [Run (map the_JStr ?cmd) (environ s)] = [PersonalExport path]"
        by (simp only: exports.simps export_of_personal option.case)
      with p r t sc show ?thesis by auto
    qed
  qed
qed

lemma exportCollections_cases:
  assumes "exportCollections path oid format pw s = (r, s')"
  shows "same_client s s' \<and>
    (\<exists>evs. trace s' = trace s @ evs \<and>
       (exports evs = [] \<or> exports evs = [OrganizationExport (the_JStr oid) path]) \<and>
       (r = Inr True \<longrightarrow> exports evs = [OrganizationExport (the_JStr oid) path] \<and>
          (\<exists>out err. script s = Exited 0 out err # script s')))"
proof (cases "bw_session_id s")
  case None
  with assms show ?thesis by (auto simp: exportCollections_def)
next
  case (Some sid)
  let ?cmd = "[JStr (bw_app_location s), JStr ''export'', JStr ''--format'', JStr format,
       JStr ''--output'', JStr path, JStr ''--session'', JStr sid,
       JStr ''--organizationid'', oid] @ password_args pw"
  show ?thesis
  proof (cases "format \<notin> set [''json'', ''encrypted_json'', ''csv''] \<or>
                format = ''encrypted_json'' \<and> pw = None")
    case True
    with assms Some have "s' = s \<and> r \<noteq> Inr True"
      by (auto simp: exportCollections_def split: if_splits)
    then show ?thesis by simp
  next
    case False
    obtain r1 s1 where run: "performCommandLineOperation ?cmd s = (r1, s1)"
      by (cases "performCommandLineOperation ?cmd s")
    note p = perform_cases [OF run]
    from False have v: "(format \<notin> set [''json'', ''encrypted_json'', ''csv'']) = False"
      "(format = ''encrypted_json'' \<and> pw = None) = False"
      by blast+
    have unf: "sbind (performCommandLineOperation ?cmd)
              (\<lambda>(code, stdout, stderr). if code = 0 then sreturn True else sreturn False) s = (r, s')"
      using assms unfolding exportCollections_def Some option.case v if_False .
    show ?thesis
    proof (cases r1)
      case (Inl e)
      with unf run have "s' = s1 \<and> r = Inl e"
        by (auto simp: monad_defs)
      with p Inl show ?thesis by simp
    next
      case (Inr x)
      obtain c out err where x: "x = (c, out, err)" by (cases x)
      with unf run Inr have r: "s' = s1 \<and> r = Inr (c = 0)"
        by (auto simp: monad_defs split: if_splits)
      from p Inr x have t: "trace s1 = trace s @ [Run (map the_JStr ?cmd) (environ s)]"
        and sc: "script s = Exited c out err # script s1"
        by simp_all
      have "exports [Run (map the_JStr ?cmd) (environ s)]
              = [OrganizationExport (the_JStr oid) path]"
        by (simp only: exports.simps export_of_organization option.case)
      with p r t sc show ?thesis by auto
    qed
  qed
qed

lemma status_cases:
  assumes "status L s = (r, s')"
  shows "same_client s s' \<and> fs s' = fs s \<and>
    (\<exists>evs. trace s' = trace s @ evs \<and> exports evs = []) \<and>
    (\<forall>st. r = Inr st \<longrightarrow>
       (\<exists>c out err. script s = Exited c out err # script s' \<and>
          (if c = 0 then json_loads L out = Inr st else st = JNull)))"
proof -
  let ?cmd = "[JStr (bw_app_location s), JStr ''status''] @
     (case bw_session_id s of None \<Rightarrow> [] | Some sid \<Rightarrow> [JStr ''--session'', JStr sid])"
  obtain r1 s1 where run: "performCommandLineOperation ?cmd s = (r1, s1)"
    by (cases "performCommandLineOperation ?cmd s")
  note p = perform_cases [OF run]
  have f: "fs s1 = fs s"
    using run by (auto simp: performCommandLineOperation_def
        split: if_splits list.splits response.splits)
  have st: "status L s =
     sbind (performCommandLineOperation ?cmd)
       (\<lambda>(code, stdout, stderr).
           if code = 0 then lift_e (json_loads L stdout) else sreturn JNull) s"
    by (cases "bw_session_id s") (simp_all add: status_def)
  have ne: "export_of (Run (map the_JStr ?cmd) (environ s)) = None"
    by (cases "bw_session_id s") simp_all
  show ?thesis
  proof (cases r1)
    case (Inl e)
    with assms st run have "s' = s1" "r = Inl e" by (auto simp: monad_defs)
    with p f Inl show ?thesis by simp
  next
    case (Inr x)
    obtain c out err where x: "x = (c, out, err)" by (cases x)
    with assms st run Inr
    have r: "s' = s1 \<and> r = (if c = 0 then json_loads L out else Inr JNull)"
      by (auto simp: monad_defs split: if_splits)
    from p Inr x have t: "trace s1 = trace s @ [Run (map the_JStr ?cmd) (environ s)]"
      and sc: "script s = Exited c out err # script s1"
      by simp_all
    have "exports [Run (map the_JStr ?cmd) (environ s)] = []"
      by (simp only: exports.simps ne option.case)
    with p f r t sc show ?thesis by (auto split: if_splits)
  qed
qed

lemma orgs_cases:
  assumes "orgs L s = (r, s')"
  shows "same_client s s' \<and>
    (\<exists>evs. trace s' = trace s @ evs \<and> exports evs = []) \<and>
    (\<forall>l. r = Inr (Some l) \<longrightarrow>
       (\<exists>c out err. script s = Exited c out err # script s' \<and>
          orgs_of_output L c out = Inr l))"
proof (cases "bw_session_id s")
  case None
  with assms show ?thesis by (auto simp: orgs_def)
next
  case (Some sid)
  let ?cmd = "[JStr (bw_app_location s), JStr ''list'', JStr ''organizations'',
                    JStr ''--session'', JStr sid]"
  obtain r1 s1 where run: "performCommandLineOperation ?cmd s = (r1, s1)"
    by (cases "performCommandLineOperation ?cmd s")
  note p = perform_cases [OF run]
  show ?thesis
  proof (cases r1)
    case (Inl e)
    with assms Some run have "s' = s1" "r = Inl e" by (auto simp: orgs_def monad_defs)
    with p Inl show ?thesis by simp
  next
    case (Inr x)
    obtain c out err where x: "x = (c, out, err)" by (cases x)
    with assms Some run Inr
    have r: "s' = s1" "r = ebind (orgs_of_output L c out) (\<lambda>os. Inr (Some os))"
      by (auto simp: orgs_def sbind_def lift_e_def)
    from p Inr x have t: "trace s1 = trace s @ [Run (map the_JStr ?cmd) (environ s)]"
      and sc: "script s = Exited c out err # script s1"
      by simp_all
    have "exports [Run (map the_JStr ?cmd) (environ s)] = []"
      by simp
    with p r t sc show ?thesis by (auto simp: ebind_def split: sum.splits)
  qed
qed


lemma sbind_cases:
  assumes "sbind m f s = (r, s')"
  obtains (fail) e where "m s = (Inl e, s')" "r = Inl e"
  | (ok) v s1 where "m s = (Inr v, s1)" "f v s1 = (r, s')"
  using assms by (auto simp: sbind_def split: prod.splits sum.splits)

lemma exportAll_loop_cases:
  assumes "exportAll_loop L dir email t fmt pw l s = (r, s')"
    and P: "\<And>org. P (org_export L dir email t fmt org)"
  shows "same_client s s' \<and>
    (\<exists>evs. trace s' = trace s @ evs \<and> list_all P (exports evs) \<and>
       (r = Inr True \<longrightarrow>
          exports evs = map (org_export L dir email t fmt) (filter org_selected l)))"
  using assms(1)
proof (induction l arbitrary: s)
  case Nil
  then show ?case by (auto simp: sreturn_def)
next
  case (Cons org rest)
  show ?case
  proof (cases "org_selected org")
    case False
    with Cons.prems have "exportAll_loop L dir email t fmt pw rest s = (r, s')" by simp
    from Cons.IH [OF this] False show ?thesis by simp
  next
    case True
    let ?x = "org_export L dir email t fmt org"
    from Cons.prems True
    have "sbind (exportCollections (org_path L dir email (org_name org) t fmt)
                 (org_id org) fmt pw)
          (\<lambda>ok. if \<not> ok then sreturn False
                else exportAll_loop L dir email t fmt pw rest) s = (r, s')"
      by simp
    then show ?thesis
    proof (cases rule: sbind_cases)
      case (fail e)
      from exportCollections_cases [OF fail(1)] fail(2) P [of org]
      show ?thesis by (auto simp: org_export_def)
    next
      case (ok v s1)
      from exportCollections_cases [OF ok(1)]
      obtain evs1 where c1: "same_client s s1" "trace s1 = trace s @ evs1"
        "exports evs1 = [] \<or> exports evs1 = [?x]"
        "v \<longrightarrow> exports evs1 = [?x]"
        by (auto simp: org_export_def)
      from c1(3) P [of org] have p1: "list_all P (exports evs1)" by auto
      show ?thesis
      proof (cases v)
        case False
        with ok(2) have "s' = s1" "r = Inr False" by (auto simp: sreturn_def)
        with c1 p1 show ?thesis by auto
      next
        case v: True
        with ok(2) have "exportAll_loop L dir email t fmt pw rest s1 = (r, s')" by simp
        from Cons.IH [OF this]
        obtain evs2 where c2: "same_client s1 s'" "trace s' = trace s1 @ evs2"
          "list_all P (exports evs2)"
          "r = Inr True \<longrightarrow>
             exports evs2 = map (org_export L dir email t fmt) (filter org_selected rest)"
          by blast
        have "trace s' = trace s @ (evs1 @ evs2)" using c1(2) c2(2) by simp
        moreover have "list_all P (exports (evs1 @ evs2))" using p1 c2(3) by simp
        moreover have "r = Inr True \<longrightarrow> exports (evs1 @ evs2) =
             map (org_export L dir email t fmt) (filter org_selected (org # rest))"
          using c1(4) v c2(4) True by simp
        moreover have "same_client s s'" using c1(1) c2(1) by (rule same_client_trans)
        ultimately show ?thesis by blast
      qed
    qed
  qed
qed

lemma mkdir_step:
  assumes "(if \<not> path_exists s dir then makedirs dir s else (Inr (), s)) = (r, s')"
  shows "same_client s s' \<and> trace s' = trace s \<and> script s' = script s"
  using assms by (auto simp: makedirs_def same_client_def split: if_splits)

lemma exportAll_cases:
  assumes run: "exportAll L dir fmt pw s = (r, s')"
    and P1: "\<And>email. P (PersonalExport (personal_path L dir email (now s) fmt))"
    and P2: "\<And>email org. P (org_export L dir email (now s) fmt org)"
  shows "\<exists>evs. trace s' = trace s @ evs \<and> list_all P (exports evs) \<and>
     (r = Inr True \<longrightarrow>
        (\<exists>st_out st_err p_out p_err c l_out l_err rs st email l.
           script s = Exited 0 st_out st_err # Exited 0 p_out p_err # Exited c l_out l_err # rs \<and>
           json_loads L st_out = Inr st \<and> getitem st ''userEmail'' = Inr email \<and>
           orgs_of_output L c l_out = Inr l \<and>
           exports evs = PersonalExport (personal_path L dir email (now s) fmt) #
             map (org_export L dir email (now s) fmt) (filter org_selected l)))"
proof -
  have stop: ?thesis if "trace s' = trace s @ evs" "list_all P (exports evs)" "r \<noteq> Inr True"
    for evs using that by blast
  show ?thesis
  proof (cases "bw_session_id s")
    case None
    from run have "(Inr False, s) = (r, s')"
      unfolding exportAll_def None option.case .
    then show ?thesis
          by - (rule stop [where evs = "[]"], auto)
  next
    case (Some sid)
    let ?K3 = "\<lambda>email timeStr ok. if \<not> ok then sreturn False
         else sbind (orgs L) (\<lambda>os. case os of None \<Rightarrow> raise TypeError
                | Some l \<Rightarrow> exportAll_loop L dir email timeStr fmt pw l)"
    let ?K2 = "\<lambda>st s. let timeStr = now s in
         sbind (lift_e (getitem st ''userEmail'')) (\<lambda>email.
         sbind (exportPersonalVault (personal_path L dir email timeStr fmt) fmt pw)
           (?K3 email timeStr)) s"
    let ?K = "\<lambda>u s. if \<not> path_isdir s dir then (Inr False, s) else sbind (status L) ?K2 s"
    from run
    have "sbind (\<lambda>s. if \<not> path_exists s dir then makedirs dir s else (Inr (), s)) ?K s = (r, s')"
      unfolding exportAll_def Some option.case .
    then show ?thesis
    proof (cases rule: sbind_cases)
      case (fail e)
      from mkdir_step [OF fail(1)] have "trace s' = trace s" by simp
      with fail(2) show ?thesis
          by - (rule stop [where evs = "[]"], simp_all)
    next
      case (ok u s0)
      from mkdir_step [OF ok(1)]
      have m: "now s0 = now s" "trace s0 = trace s" "script s0 = script s"
        by (simp_all add: same_client_def)
      show ?thesis
      proof (cases "path_isdir s0 dir")
        case False
        with ok(2) have "s' = s0 \<and> r = Inr False" by auto
        with m show ?thesis
          by - (rule stop [where evs = "[]"], simp_all)
      next
        case True
        with ok(2) have "sbind (status L) ?K2 s0 = (r, s')" by simp
        then show ?thesis
        proof (cases rule: sbind_cases)
          case (fail e)
          from status_cases [OF fail(1)] obtain evs1
            where "trace s' = trace s0 @ evs1" "exports evs1 = []" by blast
          with m fail(2) show ?thesis
          by - (rule stop [where evs = "evs1"], simp_all)
        next
          case (ok st s1)
          from status_cases [OF ok(1)] obtain evs1 c0 out0 err0
            where s1: "same_client s0 s1" "trace s1 = trace s0 @ evs1" "exports evs1 = []"
              "script s0 = Exited c0 out0 err0 # script s1"
              "if c0 = 0 then json_loads L out0 = Inr st else st = JNull"
            by blast
          from m s1(1) have t: "now s1 = now s" by (simp add: same_client_def)
          have t1: "trace s1 = trace s @ evs1" using m s1(2) by simp
          from ok(2)
          have "sbind (lift_e (getitem st ''userEmail'')) (\<lambda>email.
                 sbind (exportPersonalVault (personal_path L dir email (now s) fmt) fmt pw)
                   (?K3 email (now s))) s1 = (r, s')"
            unfolding Let_def t .
          then show ?thesis
          proof (cases rule: sbind_cases)
            case (fail e)
            then have "s' = s1" by (simp add: lift_e_def)
            with t1 s1(3) fail(2) show ?thesis
          by - (rule stop [where evs = "evs1"], simp_all)
          next
            case (ok email s1')
            then have e: "getitem st ''userEmail'' = Inr email" "s1' = s1"
              by (simp_all add: lift_e_def)
            from e(1) s1(5) have c0: "c0 = 0" "json_loads L out0 = Inr st"
              by (auto split: if_splits)
            let ?p = "PersonalExport (personal_path L dir email (now s) fmt)"
            from ok(2)
            have "sbind (exportPersonalVault (personal_path L dir email (now s) fmt) fmt pw)
                   (?K3 email (now s)) s1 = (r, s')"
              unfolding e(2) .
            then show ?thesis
            proof (cases rule: sbind_cases)
              case (fail e)
              from exportPersonalVault_cases [OF fail(1)] obtain evs2
                where x: "trace s' = trace s1 @ evs2"
                  "exports evs2 = [] \<or> exports evs2 = [?p]"
                by blast
              from x(2) P1 [of email] have "list_all P (exports evs2)" by auto
              with x(1) t1 s1(3) fail(2) show ?thesis
          by - (rule stop [where evs = "(evs1 @ evs2)"], simp_all)
            next
              case (ok v s2)
              from exportPersonalVault_cases [OF ok(1)] obtain evs2
                where s2: "trace s2 = trace s1 @ evs2"
                  "exports evs2 = [] \<or> exports evs2 = [?p]"
                  "Inr v = (Inr True :: error + bool) \<longrightarrow> exports evs2 = [?p] \<and>
                     (\<exists>out err. script s1 = Exited 0 out err # script s2)"
                by blast
              from s2(2) P1 [of email] have p2: "list_all P (exports evs2)" by auto
              have t2: "trace s2 = trace s @ (evs1 @ evs2)" using t1 s2(1) by simp
              have p12: "list_all P (exports (evs1 @ evs2))" using s1(3) p2 by simp
              show ?thesis
              proof (cases v)
                case False
                with ok(2) have "s' = s2 \<and> r = Inr False" by (auto simp: sreturn_def)
                with t2 p12 show ?thesis
          by - (rule stop [where evs = "(evs1 @ evs2)"], simp_all)
              next
                case v: True
                with s2(3) obtain out1 err1 where x2: "exports evs2 = [?p]"
                  "script s1 = Exited 0 out1 err1 # script s2" by auto
                from ok(2) v
                have "sbind (orgs L) (\<lambda>os. case os of None \<Rightarrow> raise TypeError
                        | Some l \<Rightarrow> exportAll_loop L dir email (now s) fmt pw l) s2 = (r, s')"
                  by simp
                then show ?thesis
                proof (cases rule: sbind_cases)
                  case (fail e)
                  from orgs_cases [OF fail(1)] obtain evs3
                    where "trace s' = trace s2 @ evs3" "exports evs3 = []" by blast
                  with t2 p12 fail(2) show ?thesis
          by - (rule stop [where evs = "((evs1 @ evs2) @ evs3)"], simp_all)
                next
                  case (ok os s3)
                  from orgs_cases [OF ok(1)] obtain evs3
                    where s3: "trace s3 = trace s2 @ evs3" "exports evs3 = []"
                      "\<forall>l. Inr os = (Inr (Some l) :: error + BitwardenOrganization list option) \<longrightarrow>
                         (\<exists>c out err. script s2 = Exited c out err # script s3 \<and>
                            orgs_of_output L c out = Inr l)"
                    by blast
                  have t3: "trace s3 = trace s @ ((evs1 @ evs2) @ evs3)" using t2 s3(1) by simp
                  have p3: "list_all P (exports ((evs1 @ evs2) @ evs3))"
                    using p12 s3(2) by simp
                  show ?thesis
                  proof (cases os)
                    case None
                    with ok(2) have "s' = s3 \<and> r = Inl TypeError" by (auto simp: raise_def)
                    with t3 p3 show ?thesis
          by - (rule stop [where evs = "((evs1 @ evs2) @ evs3)"], simp_all)
                  next
                    case (Some l)
                    with s3(3) obtain c2 out2 err2
                      where x3: "script s2 = Exited c2 out2 err2 # script s3"
                        "orgs_of_output L c2 out2 = Inr l" by auto
                    from ok(2) Some
                    have "exportAll_loop L dir email (now s) fmt pw l s3 = (r, s')" by simp
                    from exportAll_loop_cases [OF this, of P, OF P2] obtain evs4
                      where s4: "trace s' = trace s3 @ evs4" "list_all P (exports evs4)"
                        "r = Inr True \<longrightarrow> exports evs4 =
                            map (org_export L dir email (now s) fmt) (filter org_selected l)"
                      by blast
                    let ?evs = "((evs1 @ evs2) @ evs3) @ evs4"
                    have tr: "trace s' = trace s @ ?evs"
                      using t3 s4(1) by simp
                    have pl: "list_all P (exports ?evs)"
                      using p3 s4(2) by simp
                    have sc: "script s = Exited 0 out0 err0 # Exited 0 out1 err1 #
                        Exited c2 out2 err2 # script s3"
                      using m(3) s1(4) c0(1) x2(2) x3(1) by simp
                    have ex: "r = Inr True \<longrightarrow> exports ?evs =
                        ?p # map (org_export L dir email (now s) fmt) (filter org_selected l)"
                      using s1(3) x2(1) s3(2) s4(3) by simp
                    have inner: "r = Inr True \<longrightarrow>
                      (\<exists>st_out st_err p_out p_err c l_out l_err rs st email l.
                         script s = Exited 0 st_out st_err # Exited 0 p_out p_err #
                           Exited c l_out l_err # rs \<and>
                         json_loads L st_out = Inr st \<and> getitem st ''userEmail'' = Inr email \<and>
                         orgs_of_output L c l_out = Inr l \<and>
                         exports ?evs = PersonalExport (personal_path L dir email (now s) fmt) #
                           map (org_export L dir email (now s) fmt) (filter org_selected l))"
                    proof
                      assume "r = Inr True"
                      with ex have "exports ?evs =
                        ?p # map (org_export L dir email (now s) fmt) (filter org_selected l)"
                        by simp
                      with sc c0(2) e(1) x3(2)
                      show "\<exists>st_out st_err p_out p_err c l_out l_err rs st email l.
                         script s = Exited 0 st_out st_err # Exited 0 p_out p_err #
                           Exited c l_out l_err # rs \<and>
                         json_loads L st_out = Inr st \<and> getitem st ''userEmail'' = Inr email \<and>
                         orgs_of_output L c l_out = Inr l \<and>
                         exports ?evs = PersonalExport (personal_path L dir email (now s) fmt) #
                           map (org_export L dir email (now s) fmt) (filter org_selected l)"
                        by (intro exI [of _ out0] exI [of _ err0] exI [of _ out1] exI [of _ err1]
                            exI [of _ c2] exI [of _ out2] exI [of _ err2] exI [of _ "script s3"]
                            exI [of _ st] exI [of _ email] exI [of _ l] conjI)
                    qed
                    show ?thesis
                      by (rule exI [where x = ?evs], intro conjI) (rule tr, rule pl, rule inner)
                  qed
                qed
              qed
            qed
          qed
        qed
      qed
    qed
  qed
qed


lemma path_join_suffix: "\<exists>p. path_join a b = p @ b"
  by (auto simp: path_join_def intro: exI [of _ "[]"])

lemma file_ext_dot:
  assumes "CHR ''.'' \<notin> set f"
  shows "file_ext (p @ ''.'' @ f) = f"
proof -
  have "takeWhile (\<lambda>c. c \<noteq> CHR ''.'') (rev f @ CHR ''.'' # rev p) = rev f"
  proof -
    have "takeWhile (\<lambda>c. c \<noteq> CHR ''.'') (rev f @ CHR ''.'' # rev p)
          = takeWhile (\<lambda>c. c \<noteq> CHR ''.'') (rev f)"
      by (rule takeWhile_tail) simp
    also have "\<dots> = rev f"
      using assms by (auto simp: takeWhile_eq_all_conv)
    finally show ?thesis .
  qed
  then show ?thesis by (simp add: file_ext_def)
qed

lemma file_ext_personal_path:
  "CHR ''.'' \<notin> set fmt \<Longrightarrow> file_ext (personal_path L dir email t fmt) = fmt"
proof -
  assume d: "CHR ''.'' \<notin> set fmt"
  obtain p where "personal_path L dir email t fmt = p @ py_str L email @ ''-'' @ t @ ''.'' @ fmt"
    unfolding personal_path_def using path_join_suffix by blast
  then have "personal_path L dir email t fmt = (p @ py_str L email @ ''-'' @ t) @ ''.'' @ fmt"
    by simp
  then show ?thesis using file_ext_dot [OF d] by metis
qed

lemma file_ext_org_path:
  "CHR ''.'' \<notin> set fmt \<Longrightarrow> file_ext (org_path L dir email name t fmt) = fmt"
proof -
  assume d: "CHR ''.'' \<notin> set fmt"
  obtain p where "org_path L dir email name t fmt
      = p @ py_str L email @ ''-'' @ py_str L name @ ''-'' @ t @ ''.'' @ fmt"
    unfolding org_path_def using path_join_suffix by blast
  then have "org_path L dir email name t fmt
      = (p @ py_str L email @ ''-'' @ py_str L name @ ''-'' @ t) @ ''.'' @ fmt"
    by simp
  then show ?thesis using file_ext_dot [OF d] by metis
qed


lemmas run_defs = exportAll_def exportPersonalVault_def exportCollections_def orgs_def
  orgs_of_output_def status_def performCommandLineOperation_def monad_defs
  BitwardenOrganization_init_def org_selected_def personal_path_def org_path_def
  path_join_def path_exists_def path_isdir_def password_args_def

lemmas org_defs = orgs_text_def orgs_json_def org_text_def org_json_def status_unlocked_def
  export_done_def export_refused_def three_orgs_def



lemma sample_export_csv:
  "exportAll sample_lib ''out'' ''csv'' None
     (responds [status_unlocked, export_done, three_orgs, export_done, export_done] unlocked)
   = (Inr True, unlocked\<lparr>trace :=
       [Run [''bw'', ''status'', ''--session'', ''tok''] [(''HOME'', ''/root'')],
        Run [''bw'', ''export'', ''--format'', ''csv'', ''--output'',
             ''out/a@b.c-20240131-0930.csv'', ''--session'', ''tok''] [(''HOME'', ''/root'')],
        Run [''bw'', ''list'', ''organizations'', ''--session'', ''tok''] [(''HOME'', ''/root'')],
        Run [''bw'', ''export'', ''--format'', ''csv'', ''--output'',
             ''out/a@b.c-Acme-20240131-0930.csv'', ''--session'', ''tok'',
             ''--organizationid'', ''o1''] [(''HOME'', ''/root'')],
        Run [''bw'', ''export'', ''--format'', ''csv'', ''--output'',
             ''out/a@b.c-Shop-20240131-0930.csv'', ''--session'', ''tok'',
             ''--organizationid'', ''o3''] [(''HOME'', ''/root'')]]\<rparr>)"
  by (simp add: run_defs sample_defs org_defs)

named_theorems keeps_intros

lemma keepsD: "keeps m \<Longrightarrow> serverUrl_field (snd (m s)) = serverUrl_field s"
  by (simp add: keeps_def)

lemma keeps_sbind [keeps_intros]:
  "keeps m \<Longrightarrow> (\<And>v. keeps (f v)) \<Longrightarrow> keeps (sbind m f)"
  unfolding keeps_def sbind_def
  by (auto split: prod.splits sum.splits) (metis snd_conv)+

lemma keeps_sreturn [keeps_intros]: "keeps (sreturn v)"
  by (simp add: keeps_def sreturn_def)

lemma keeps_raise [keeps_intros]: "keeps (raise e)"
  by (simp add: keeps_def raise_def)

lemma keeps_lift_e [keeps_intros]: "keeps (lift_e r)"
  by (simp add: keeps_def lift_e_def)

lemma keeps_Pair [keeps_intros]: "keeps (Pair r)"
  by (simp add: keeps_def)

lemma keeps_if [keeps_intros]: "keeps a \<Longrightarrow> keeps b \<Longrightarrow> keeps (if c then a else b)"
  by simp

lemma keeps_case_prod [keeps_intros]: "(\<And>a b. keeps (f a b)) \<Longrightarrow> keeps (case_prod f p)"
  by (cases p) simp

lemma keeps_case_option [keeps_intros]:
  "keeps a \<Longrightarrow> (\<And>x. keeps (b x)) \<Longrightarrow> keeps (case_option a b x)"
  by (cases x) simp_all

lemma keeps_perform [keeps_intros]: "keeps (performCommandLineOperation cmd)"
  by (auto simp: keeps_def performCommandLineOperation_def split: list.splits response.splits)

lemma keeps_sleep [keeps_intros]: "keeps (sleep d)"
  by (simp add: keeps_def sleep_def)

lemma keeps_environ_set [keeps_intros]: "keeps (environ_set k v)"
  by (auto simp: keeps_def environ_set_def split: json.splits)

lemma keeps_environ_del [keeps_intros]: "keeps (environ_del k)"
  by (simp add: keeps_def environ_del_def)

lemma keeps_makedirs [keeps_intros]: "keeps (makedirs p)"
  by (simp add: keeps_def makedirs_def)

lemma keeps_status [keeps_intros]: "keeps (status L)"
proof -
  have k: "keeps (sbind (performCommandLineOperation cmd)
           (\<lambda>(code, stdout, stderr).
              if code = 0 then lift_e (json_loads L stdout) else sreturn JNull))" for cmd
    by (intro keeps_intros)
  show ?thesis unfolding keeps_def status_def Let_def
    by (intro allI) (rule keepsD [OF k])
qed

lemma keeps_config:
  "keeps (\<lambda>s. sbind (performCommandLineOperation
                  [JStr (bw_app_location s), JStr ''config'', JStr ''server'', u])
               (\<lambda>r. sreturn ()) s)"
proof -
  have k: "keeps (sbind (performCommandLineOperation cmd) (\<lambda>r. sreturn ()))" for cmd
    by (intro keeps_intros)
  show ?thesis unfolding keeps_def by (intro allI) (rule keepsD [OF k])
qed

lemma keeps_serverUrl_set [keeps_intros]: "keeps (serverUrl_set L u)"
  unfolding serverUrl_set_def by (intro keeps_intros keeps_config)

lemma Bitwarden_init_serverUrl:
  "serverUrl_field (snd (Bitwarden_init L loc u ca s)) = None"
proof -
  have k: "keeps (sbind (if \<not> py_eq ca JNull
            then environ_set ''NODE_EXTRA_CA_CERTS'' ca else sreturn ())
       (\<lambda>x. sbind (status L) (\<lambda>st.
             sbind (lift_e (getitem st ''serverUrl'')) (\<lambda>v.
               if \<not> py_eq v u then serverUrl_set L u else sreturn ()))))"
    by (intro keeps_intros)
  show ?thesis unfolding Bitwarden_init_def by (simp only: keepsD [OF k]) simp
qed

lemma keeps_extract_lines [keeps_intros]: "keeps (extract_lines ls)"
  unfolding keeps_def
proof
  fix s show "serverUrl_field (snd (extract_lines ls s)) = serverUrl_field s"
    by (induction ls arbitrary: s) (auto simp: Let_def split: sum.splits)
qed

lemma keeps_extractSessionFromStdOut [keeps_intros]: "keeps (extractSessionFromStdOut L out)"
  unfolding extractSessionFromStdOut_def by (intro keeps_intros)

lemma keeps_isClientLatest [keeps_intros]: "keeps (isClientLatest L)"
proof -
  have k: "keeps (sbind (performCommandLineOperation cmd)
       (\<lambda>(code, stdout, stderr).
          if code = 0 then
            sbind (lift_e (decode_utf8 L stdout)) (\<lambda>output.
              if str_contains ''No update available'' output then sreturn True
              else sreturn False)
          else sreturn False))" for cmd
    by (intro keeps_intros)
  show ?thesis unfolding keeps_def isClientLatest_def
    by (intro allI) (rule keepsD [OF k])
qed

lemma keeps_sync [keeps_intros]: "keeps sync"
proof -
  have k: "keeps (sbind (performCommandLineOperation cmd)
            (\<lambda>(code, stdout, stderr). if code = 0 then sreturn True else sreturn False))" for cmd
    by (intro keeps_intros)
  show ?thesis unfolding keeps_def sync_def
  proof
    fix s show "serverUrl_field (snd (case bw_session_id s of
        None \<Rightarrow> (Inl VaultNotUnlockedException, s)
      | Some sid \<Rightarrow>
          sbind (performCommandLineOperation
                   [JStr (bw_app_location s), JStr ''sync'', JStr ''--session'', JStr sid])
            (\<lambda>(code, stdout, stderr). if code = 0 then sreturn True else sreturn False) s))
       = serverUrl_field s"
      by (cases "bw_session_id s") (simp_all only: option.case snd_conv keepsD [OF k])
  qed
qed

lemma loginWithPassword_loop_keeps:
  "serverUrl_field (snd (loginWithPassword_loop L u p n i rv s)) = serverUrl_field s"
proof (induction L u p n i rv s rule: loginWithPassword_loop.induct)
  case (1 L u p n i rv s)
  let ?cmd = "[JStr (bw_app_location s), JStr ''login'', u, p]"
  show ?case
  proof (cases "i \<le> n")
    case False
    then show ?thesis by (subst loginWithPassword_loop.simps) simp
  next
    case True
    obtain r1 s1 where run: "performCommandLineOperation ?cmd s = (r1, s1)"
      by (cases "performCommandLineOperation ?cmd s")
    have f1: "serverUrl_field s1 = serverUrl_field s"
      using keepsD [OF keeps_perform, of ?cmd s] run by simp
    show ?thesis
    proof (cases r1)
      case (Inl e)
      with True run f1 show ?thesis by (subst loginWithPassword_loop.simps) simp
    next
      case (Inr x)
      obtain c out err where x: "x = (c, out, err)" by (cases x)
      show ?thesis
      proof (cases "c = 0")
        case c: True
        have k: "keeps (sbind (extractSessionFromStdOut L out) (\<lambda>u. sbind sync (\<lambda>r. sreturn True)))"
          by (intro keeps_intros)
        from True run Inr x c f1 keepsD [OF k, of s1]
        show ?thesis by (subst loginWithPassword_loop.simps) simp
      next
        case c: False
        obtain r2 s2 where sl: "sleep (0.5 * real_of_int i) s1 = (r2, s2)"
          by (cases "sleep (0.5 * real_of_int i) s1")
        have f2: "serverUrl_field s2 = serverUrl_field s1"
          using keepsD [OF keeps_sleep, of "0.5 * real_of_int i" s1] sl by simp
        show ?thesis
        proof (cases r2)
          case (Inl e)
          with True run \<open>r1 = Inr x\<close> x c sl f1 f2
          show ?thesis by (subst loginWithPassword_loop.simps) simp
        next
          case r2: (Inr v)
          from "1.IH" [OF True run [symmetric] Inr x [symmetric] refl c sl [symmetric] r2]
          have "serverUrl_field (snd (loginWithPassword_loop L u p n (i + 1) rv s2))
                = serverUrl_field s2" .
          with True run Inr x c sl r2 f1 f2
          show ?thesis by (subst loginWithPassword_loop.simps) simp
        qed
      qed
    qed
  qed
qed

lemma keeps_loginWithPassword_loop [keeps_intros]: "keeps (loginWithPassword_loop L u p n i rv)"
  unfolding keeps_def by (intro allI) (rule loginWithPassword_loop_keeps)

lemma keeps_loginWithPassword [keeps_intros]: "keeps (loginWithPassword L u p n)"
  unfolding loginWithPassword_def by (intro keeps_intros)

lemma loginWithApiKey_loop_keeps:
  "serverUrl_field (snd (loginWithApiKey_loop n i rv s)) = serverUrl_field s"
proof (induction n i rv s rule: loginWithApiKey_loop.induct)
  case (1 n i rv s)
  let ?cmd = "[JStr (bw_app_location s), JStr ''login'', JStr ''--apikey'']"
  show ?case
  proof (cases "i \<le> n")
    case False
    then show ?thesis by (subst loginWithApiKey_loop.simps) simp
  next
    case True
    obtain r1 s1 where run: "performCommandLineOperation ?cmd s = (r1, s1)"
      by (cases "performCommandLineOperation ?cmd s")
    have f1: "serverUrl_field s1 = serverUrl_field s"
      using keepsD [OF keeps_perform, of ?cmd s] run by simp
    show ?thesis
    proof (cases r1)
      case (Inl e)
      with True run f1 show ?thesis by (subst loginWithApiKey_loop.simps) simp
    next
      case (Inr x)
      obtain c out err where x: "x = (c, out, err)" by (cases x)
      show ?thesis
      proof (cases "c = 0")
        case c: True
        from True run Inr x c f1
        show ?thesis by (subst loginWithApiKey_loop.simps) simp
      next
        case c: False
        obtain r2 s2 where sl: "sleep (0.5 * real_of_int i) s1 = (r2, s2)"
          by (cases "sleep (0.5 * real_of_int i) s1")
        have f2: "serverUrl_field s2 = serverUrl_field s1"
          using keepsD [OF keeps_sleep, of "0.5 * real_of_int i" s1] sl by simp
        show ?thesis
        proof (cases r2)
          case (Inl e)
          with True run \<open>r1 = Inr x\<close> x c sl f1 f2
          show ?thesis by (subst loginWithApiKey_loop.simps) simp
        next
          case r2: (Inr v)
          from "1.IH" [OF True run [symmetric] Inr x [symmetric] refl c sl [symmetric] r2]
          have "serverUrl_field (snd (loginWithApiKey_loop n (i + 1) rv s2))
                = serverUrl_field s2" .
          with True run Inr x c sl r2 f1 f2
          show ?thesis by (subst loginWithApiKey_loop.simps) simp
        qed
      qed
    qed
  qed
qed

lemma keeps_loginWithApiKey_loop [keeps_intros]: "keeps (loginWithApiKey_loop n i rv)"
  unfolding keeps_def by (intro allI) (rule loginWithApiKey_loop_keeps)

lemma keeps_loginWithApiKey [keeps_intros]: "keeps (loginWithApiKey L i k n)"
  unfolding loginWithApiKey_def by (intro keeps_intros)

lemma keeps_logout [keeps_intros]: "keeps logout"
proof -
  have c: "keeps (\<lambda>s'. (Inr (), s'\<lparr>bw_session_id := None\<rparr>))"
    by (simp add: keeps_def)
  have k: "keeps (sbind (performCommandLineOperation cmd)
       (\<lambda>r s'. (Inr (), s'\<lparr>bw_session_id := None\<rparr>)))" for cmd
    by (intro keeps_intros c)
  show ?thesis unfolding keeps_def logout_def by (intro allI) (rule keepsD [OF k])
qed

lemma keeps_unlock_run:
  "keeps (\<lambda>s. performCommandLineOperation
                  [JStr (bw_app_location s), JStr ''unlock'', JStr ''--passwordenv'',
                   JStr ''BW_PASSWORD''] s)"
  unfolding keeps_def by (intro allI) (rule keepsD [OF keeps_perform])

lemma keeps_unlock [keeps_intros]: "keeps (unlock L p)"
  unfolding unlock_def by (intro keeps_intros keeps_unlock_run)

lemma keeps_lock [keeps_intros]: "keeps lock"
proof -
  have k: "keeps (sbind (performCommandLineOperation cmd) (\<lambda>r. sreturn ()))" for cmd
    by (intro keeps_intros)
  show ?thesis unfolding keeps_def lock_def by (intro allI) (rule keepsD [OF k])
qed

text \<open>An operation that does nothing without a session token and otherwise runs one
  command and works on its result.\<close>

lemma keeps_with_session:
  assumes "\<And>cmd. keeps (sbind (performCommandLineOperation cmd) f)"
  shows "serverUrl_field (snd (case bw_session_id s of None \<Rightarrow> (r, s)
           | Some sid \<Rightarrow> sbind (performCommandLineOperation (cmd s sid)) f s))
         = serverUrl_field s"
  by (cases "bw_session_id s") (simp_all only: option.case snd_conv keepsD [OF assms])

lemma keeps_items [keeps_intros]: "keeps (items L)"
  unfolding keeps_def items_def
  by (intro allI, rule keeps_with_session) (intro keeps_intros)

lemma keeps_orgs [keeps_intros]: "keeps (orgs L)"
  unfolding keeps_def orgs_def
  by (intro allI, rule keeps_with_session) (intro keeps_intros)

lemma keeps_collections [keeps_intros]: "keeps (collections L)"
  unfolding keeps_def collections_def
  by (intro allI, rule keeps_with_session) (intro keeps_intros)

lemma keeps_getitem [keeps_intros]: "keeps (Bitwarden_getitem L name)"
  unfolding keeps_def
proof
  fix s
  have k: "keeps (sbind (performCommandLineOperation cmd)
              (\<lambda>(code, stdout, stderr).
                 if code = 0 then
                   lift_e (ebind (json_loads L stdout) (\<lambda>item_dict_list.
                           ebind (py_iter item_dict_list) (mapE get_bitwarden_item)))
                 else sreturn []))" for cmd
    by (intro keeps_intros)
  show "serverUrl_field (snd (Bitwarden_getitem L name s)) = serverUrl_field s"
  proof (cases "bw_session_id s")
    case None
    then show ?thesis by (simp add: Bitwarden_getitem_def)
  next
    case (Some sid)
    show ?thesis
    proof (cases "is_JStr name")
      case False
      with Some show ?thesis by (simp add: Bitwarden_getitem_def)
    next
      case True
      show ?thesis unfolding Bitwarden_getitem_def Some option.case
        by (simp only: True not_True_eq_False if_False keepsD [OF k])
    qed
  qed
qed

lemma keeps_export_run:
  assumes "\<And>cmd. keeps (sbind (performCommandLineOperation cmd) f)"
  shows "serverUrl_field (snd (case bw_session_id s of None \<Rightarrow> (r, s)
           | Some sid \<Rightarrow>
               if c1 then (e1, s) else if c2 then (e2, s)
               else sbind (performCommandLineOperation (cmd sid)) f s))
         = serverUrl_field s"
  by (cases "bw_session_id s"; cases c1; cases c2)
     (simp_all only: option.case snd_conv if_True if_False keepsD [OF assms])

lemma keeps_exportPersonalVault [keeps_intros]: "keeps (exportPersonalVault path fmt pw)"
  unfolding keeps_def exportPersonalVault_def
  by (intro allI, rule keeps_export_run) (intro keeps_intros)

lemma keeps_exportCollections [keeps_intros]: "keeps (exportCollections path oid fmt pw)"
  unfolding keeps_def exportCollections_def
  by (intro allI, rule keeps_export_run) (intro keeps_intros)

lemma keeps_exportAll_loop [keeps_intros]: "keeps (exportAll_loop L dir email t fmt pw l)"
proof (induction l)
  case Nil
  show ?case by (simp add: keeps_sreturn)
next
  case (Cons org rest)
  show ?case
  proof (cases "org_selected org")
    case False
    with Cons show ?thesis by simp
  next
    case True
    have "keeps (sbind (exportCollections (org_path L dir email (org_name org) t fmt)
                 (org_id org) fmt pw)
          (\<lambda>ok. if \<not> ok then sreturn False
                else exportAll_loop L dir email t fmt pw rest))"
      by (intro keeps_intros Cons)
    with True show ?thesis by simp
  qed
qed

lemma keeps_exportAll [keeps_intros]: "keeps (exportAll L dir fmt pw)"
  unfolding keeps_def
proof
  fix s
  have k3: "keeps (sbind (lift_e (getitem st ''userEmail'')) (\<lambda>email.
                   sbind (exportPersonalVault
                            (personal_path L dir email timeStr fmt)
                            fmt pw) (\<lambda>ok.
                     if \<not> ok then sreturn False
                     else
                       sbind (orgs L) (\<lambda>os.
                         case os of
                           None \<Rightarrow> raise TypeError
                         | Some l \<Rightarrow>
                             exportAll_loop L dir email timeStr fmt
                               pw l))))" for st timeStr
    by (intro keeps_intros)
  have k2: "keeps (\<lambda>s.
                   let timeStr = now s in
                   sbind (lift_e (getitem st ''userEmail'')) (\<lambda>email.
                   sbind (exportPersonalVault
                            (personal_path L dir email timeStr fmt)
                            fmt pw) (\<lambda>ok.
                     if \<not> ok then sreturn False
                     else
                       sbind (orgs L) (\<lambda>os.
                         case os of
                           None \<Rightarrow> raise TypeError
                         | Some l \<Rightarrow>
                             exportAll_loop L dir email timeStr fmt
                               pw l))) s)" for st
    unfolding keeps_def Let_def by (intro allI) (rule keepsD [OF k3])
  have k1: "keeps (sbind (status L) (\<lambda>st s.
                   let timeStr = now s in
                   sbind (lift_e (getitem st ''userEmail'')) (\<lambda>email.
                   sbind (exportPersonalVault
                            (personal_path L dir email timeStr fmt)
                            fmt pw) (\<lambda>ok.
                     if \<not> ok then sreturn False
                     else
                       sbind (orgs L) (\<lambda>os.
                         case os of
                           None \<Rightarrow> raise TypeError
                         | Some l \<Rightarrow>
                             exportAll_loop L dir email timeStr fmt
                               pw l))) s))"
    by (intro keeps_intros k2)
  have k0: "keeps (\<lambda>s. if \<not> path_isdir s dir then (Inr False, s)
               else
                 sbind (status L) (\<lambda>st s.
                   let timeStr = now s in
                   sbind (lift_e (getitem st ''userEmail'')) (\<lambda>email.
                   sbind (exportPersonalVault
                            (personal_path L dir email timeStr fmt)
                            fmt pw) (\<lambda>ok.
                     if \<not> ok then sreturn False
                     else
                       sbind (orgs L) (\<lambda>os.
                         case os of
                           None \<Rightarrow> raise TypeError
                         | Some l \<Rightarrow>
                             exportAll_loop L dir email timeStr fmt
                               pw l))) s) s)"
    unfolding keeps_def
  proof
    fix s0 :: state
    show "serverUrl_field (snd (if \<not> path_isdir s0 dir then (Inr False, s0)
               else
                 sbind (status L) (\<lambda>st s.
                   let timeStr = now s in
                   sbind (lift_e (getitem st ''userEmail'')) (\<lambda>email.
                   sbind (exportPersonalVault
                            (personal_path L dir email timeStr fmt)
                            fmt pw) (\<lambda>ok.
                     if \<not> ok then sreturn False
                     else
                       sbind (orgs L) (\<lambda>os.
                         case os of
                           None \<Rightarrow> raise TypeError
                         | Some l \<Rightarrow>
                             exportAll_loop L dir email timeStr fmt
                               pw l))) s) s0)) = serverUrl_field s0"
      by (cases "path_isdir s0 dir")
         (simp_all only: not_True_eq_False not_False_eq_True if_True if_False snd_conv
            keepsD [OF k1])
  qed
  have ka: "keeps (\<lambda>s. if \<not> path_exists s dir then makedirs dir s else (Inr (), s))"
    by (simp add: keeps_def makedirs_def)
  show "serverUrl_field (snd (exportAll L dir fmt pw s)) = serverUrl_field s"
  proof (cases "bw_session_id s")
    case None
    then show ?thesis by (simp add: exportAll_def)
  next
    case (Some sid)
    show ?thesis unfolding exportAll_def Some option.case
      by (rule keepsD [OF keeps_sbind [OF ka k0]])
  qed
qed

lemma after_keeps: "serverUrl_field (after L c s) = serverUrl_field s"
  by (cases c) (simp_all add: keepsD keeps_intros)

section \<open>Equality of vault items\<close>

text \<open>
  C8, as the code has it. Two items of the same class compare equal exactly when their names
  and notes are equal and, for a Login, the user name, the password and the one-time code
  are, for a Card, the holder name, the brand, the number, the expiry month, the expiry year
  and the verification code are. The id and the folder id take no part in the comparison.
\<close>

theorem item_eq_same_variant:
  "item_eq (Login a) (Some (Login b)) =
     Inr (py_eq (item_name a) (item_name b) \<and> py_eq (item_note a) (item_note b) \<and>
          py_eq (login_username a) (login_username b) \<and>
          py_eq (login_password a) (login_password b) \<and>
          py_eq (login_totp a) (login_totp b)) \<and>
   item_eq (Card c) (Some (Card d)) =
     Inr (py_eq (item_name c) (item_name d) \<and> py_eq (item_note c) (item_note d) \<and>
          py_eq (card_holder_name c) (card_holder_name d) \<and>
          py_eq (card_brand c) (card_brand d) \<and>
          py_eq (card_number c) (card_number d) \<and>
          py_eq (card_exp_month c) (card_exp_month d) \<and>
          py_eq (card_exp_year c) (card_exp_year d) \<and>
          py_eq (card_code c) (card_code d)) \<and>
   item_eq (Note m) (Some (Note n)) =
     Inr (py_eq (item_name m) (item_name n) \<and> py_eq (item_note m) (item_note n))"
  by (simp add: BitwardenLogin_eq_def BitwardenCard_eq_def BitwardenItem_eq_def
        BitwardenItem.truncate_def)

text \<open>
  C8 as the specification states it, with the id and the folder id among the compared
  fields, fails: two Login items that differ in their id and in their folder id and agree on
  every other field compare equal.
\<close>

theorem item_eq_ignores_id:
  "item_eq
     (Login \<lparr>item_id = JStr ''id-1'', item_fid = JStr ''folder-1'', item_name = JStr ''mail'',
        item_note = JNull, login_username = JStr ''alice'', login_password = JStr ''pw'',
        login_totp = JNull\<rparr>)
     (Some (Login \<lparr>item_id = JStr ''id-2'', item_fid = JStr ''folder-2'',
        item_name = JStr ''mail'', item_note = JNull, login_username = JStr ''alice'',
        login_password = JStr ''pw'', login_totp = JNull\<rparr>))
   = Inr True \<and>
   \<not> py_eq (JStr ''id-1'') (JStr ''id-2'') \<and> \<not> py_eq (JStr ''folder-1'') (JStr ''folder-2'')"
  by (simp add: BitwardenLogin_eq_def BitwardenItem_eq_def BitwardenItem.truncate_def)

section \<open>Validation of the export format\<close>

text \<open>
  C5, as the code has it. For every path, a format outside json, csv and encrypted_json
  makes \<^verbatim>\<open>exportPersonalVault\<close> raise \<^verbatim>\<open>InvalidArgumentsException\<close> when a session token
  is held; when none is held the call returns false before the format is looked at. Either
  way no process is spawned and nothing changes.
\<close>

theorem exportPersonalVault_invalid_format:
  "format \<notin> {''json'', ''csv'', ''encrypted_json''} \<Longrightarrow>
   exportPersonalVault path format encrypt_password s =
     (case bw_session_id s of
        None \<Rightarrow> (Inr False, s)
      | Some sid \<Rightarrow> (Inl InvalidArgumentsException, s))"
  by (auto simp: exportPersonalVault_def split: option.splits)

theorem exportPersonalVault_xml_witness:
  "exportPersonalVault ''out/a.xml'' ''xml'' None unlocked
     = (Inl InvalidArgumentsException, unlocked)"
  using exportPersonalVault_invalid_format [of "''xml''" "''out/a.xml''" None unlocked]
  by (simp add: unlocked_def fresh_def)

text \<open>
  C5 as the specification states it, for any session state, fails: without a session token
  the format \<^verbatim>\<open>xml\<close> raises nothing and the call returns false.
\<close>

theorem exportPersonalVault_xml_no_session:
  "exportPersonalVault ''out/a.xml'' ''xml'' None fresh = (Inr False, fresh)"
  by (simp add: exportPersonalVault_def fresh_def)

section \<open>Extraction of the session token\<close>




section \<open>Selection of the authenticator\<close>

text \<open>
  C4, as the code has it. For every account configuration (a dictionary), whenever
  \<^verbatim>\<open>getAuthenticator\<close> returns, it returns the API-key class exactly when both keys
  \<^verbatim>\<open>client_id\<close> and \<^verbatim>\<open>client_secret\<close> are present in the dictionary, whatever their
  values, and the password class otherwise; it returns exactly when the constructor of the
  session client does.
\<close>

theorem getAuthenticator_selects:
  assumes "getAuthenticator L (JObj kvs) server_url root_ca_path s = (Inr a, s')"
  shows "(auth_class a = BitwardenApiKeyAuthenticator \<longleftrightarrow>
            ''client_id'' \<in> fst ` set kvs \<and> ''client_secret'' \<in> fst ` set kvs) \<and>
         (auth_class a = BitwardenPasswordAuthenticator \<longleftrightarrow>
            \<not> (''client_id'' \<in> fst ` set kvs \<and> ''client_secret'' \<in> fst ` set kvs)) \<and>
         auth_account a = JObj kvs \<and> auth_url a = server_url \<and>
         Bitwarden_init L ''bw'' server_url root_ca_path s = (Inr (), s')"
proof -
  let ?both = "''client_id'' \<in> fst ` set kvs \<and> ''client_secret'' \<in> fst ` set kvs"
  let ?cls = "if ?both then BitwardenApiKeyAuthenticator else BitwardenPasswordAuthenticator"
  have "getAuthenticator L (JObj kvs) server_url root_ca_path s =
          BitwardenPasswordAuthenticator_init L ?cls (JObj kvs) server_url root_ca_path s"
    by (simp add: getAuthenticator_def monad_defs)
  with assms have
    "BitwardenPasswordAuthenticator_init L ?cls (JObj kvs) server_url root_ca_path s = (Inr a, s')"
    by simp
  then have "a = \<lparr>auth_class = ?cls, auth_account = JObj kvs, auth_url = server_url\<rparr> \<and>
      Bitwarden_init L ''bw'' server_url root_ca_path s = (Inr (), s')"
    by (rule authenticator_init_result)
  then show ?thesis by (cases ?both) simp_all
qed

text \<open>An account with an API key gets the API-key class, one without the password class.\<close>

theorem getAuthenticator_witness:
  "getAuthenticator sample_lib acct_key vault_url JNull
     (responds [Exited 0 (status_text ''unauthenticated'') []] fresh)
   = (Inr \<lparr>auth_class = BitwardenApiKeyAuthenticator, auth_account = acct_key,
           auth_url = vault_url\<rparr>,
      fresh\<lparr>trace := [Run [''bw'', ''status''] [(''HOME'', ''/root'')]]\<rparr>) \<and>
   getAuthenticator sample_lib acct_password vault_url JNull
     (responds [Exited 0 (status_text ''unauthenticated'') []] fresh)
   = (Inr \<lparr>auth_class = BitwardenPasswordAuthenticator, auth_account = acct_password,
           auth_url = vault_url\<rparr>,
      fresh\<lparr>trace := [Run [''bw'', ''status''] [(''HOME'', ''/root'')]]\<rparr>)"
proof -
  let ?s = "responds [Exited 0 (status_text ''unauthenticated'') []] fresh"
  let ?s' = "fresh\<lparr>trace := [Run [''bw'', ''status''] [(''HOME'', ''/root'')]]\<rparr>"
  have 1: "getAuthenticator sample_lib acct_key vault_url JNull ?s
     = (Inr \<lparr>auth_class = BitwardenApiKeyAuthenticator, auth_account = acct_key,
           auth_url = vault_url\<rparr>, ?s')"
    by (simp add: getAuthenticator_def BitwardenPasswordAuthenticator_init_def init_sample
        acct_key_def monad_defs)
  have 2: "getAuthenticator sample_lib acct_password vault_url JNull ?s
     = (Inr \<lparr>auth_class = BitwardenPasswordAuthenticator, auth_account = acct_password,
           auth_url = vault_url\<rparr>, ?s')"
    by (simp add: getAuthenticator_def BitwardenPasswordAuthenticator_init_def init_sample
        acct_password_def monad_defs)
  from getAuthenticator_selects [OF 1 [unfolded acct_key_def]]
       getAuthenticator_selects [OF 2 [unfolded acct_password_def]] 1 2
  show ?thesis by simp
qed

text \<open>
  C4 as the specification states it, with non-empty values, fails: an account whose
  \<^verbatim>\<open>client_id\<close> and \<^verbatim>\<open>client_secret\<close> are both the empty string gets the API-key class.
\<close>

theorem getAuthenticator_empty_key:
  "getitem acct_empty_key ''client_id'' = Inr (JStr []) \<and>
   getitem acct_empty_key ''client_secret'' = Inr (JStr []) \<and>
   fst (getAuthenticator sample_lib acct_empty_key vault_url JNull
     (responds [Exited 0 (status_text ''unauthenticated'') []] fresh))
   = Inr \<lparr>auth_class = BitwardenApiKeyAuthenticator, auth_account = acct_empty_key,
           auth_url = vault_url\<rparr>"
  by (simp add: getAuthenticator_def BitwardenPasswordAuthenticator_init_def init_sample
        acct_empty_key_def monad_defs)

section \<open>A login that prints no session line\<close>



section \<open>Retries of the password login\<close>

text \<open>
  C3, as the code has it. From the status Unauthenticated: when \<open>k\<close> login attempts fail,
  with \<open>k\<close> below the number of attempts allowed, and the next one exits with code 0 and
  prints a session line (some line contains \<^verbatim>\<open>export\<close>, and each such line contains
  \<^verbatim>\<open>=\<close>), and the synchronization process can be run, then the login process has run
  exactly \<open>k + 1\<close> times, the attempt numbered \<open>i\<close> (from 1) was followed by a sleep of
  \<open>0.5 * i\<close> seconds for each \<open>i\<close> up to \<open>k\<close>, the token is stored, the synchronization has
  run once, and the call returns true. And whenever the call returns false, every one of the
  allowed attempts was made and failed, each followed by its sleep.
\<close>

theorem loginWithPassword_retry:
  assumes "script s = Exited 0 st_out st_err # rs"
    and "json_loads L st_out = Inr st"
    and "getitem st ''status'' = Inr (JStr ''unauthenticated'')"
  shows "(\<forall>fails out err content c2 out2 err2 rest.
           rs = fails @ Exited 0 out err # Exited c2 out2 err2 # rest \<and>
           list_all failed fails \<and> int (length fails) < retry_count \<and>
           decode_utf8 L out = Inr content \<and> export_lines content \<noteq> [] \<and>
           (\<forall>l \<in> set (export_lines content). CHR ''='' \<in> set l) \<longrightarrow>
           loginWithPassword L (JStr u) (JStr p) retry_count s =
             (Inr True,
              s\<lparr>bw_session_id := Some (token_of_line (last (export_lines content))),
                script := rest,
                trace := trace s @ Run (status_command s) (environ s) #
                  failed_attempts [bw_app_location s, ''login'', u, p] (environ s) 1
                    (length fails) @
                  [Run [bw_app_location s, ''login'', u, p] (environ s),
                   Run [bw_app_location s, ''sync'', ''--session'',
                        token_of_line (last (export_lines content))] (environ s)]\<rparr>)) \<and>
         (\<forall>s'. loginWithPassword L (JStr u) (JStr p) retry_count s = (Inr False, s') \<longrightarrow>
            (\<exists>fails. list_all failed fails \<and> int (length fails) = max 0 retry_count \<and>
               rs = fails @ script s' \<and>
               trace s' = trace s @ Run (status_command s) (environ s) #
                 failed_attempts [bw_app_location s, ''login'', u, p] (environ s) 1
                   (length fails)))"
proof (intro conjI allI impI)
  fix fails out err content c2 out2 err2 rest
  assume h: "rs = fails @ Exited 0 out err # Exited c2 out2 err2 # rest \<and>
           list_all failed fails \<and> int (length fails) < retry_count \<and>
           decode_utf8 L out = Inr content \<and> export_lines content \<noteq> [] \<and>
           (\<forall>l \<in> set (export_lines content). CHR ''='' \<in> set l)"
  let ?tok = "token_of_line (last (export_lines content))"
  let ?s1 = "s\<lparr>script := rs, trace := trace s @ [Run (status_command s) (environ s)]\<rparr>"
  let ?s2 = "?s1\<lparr>script := Exited 0 out err # Exited c2 out2 err2 # rest,
       trace := trace ?s1 @
          failed_attempts [bw_app_location ?s1, ''login'', u, p] (environ ?s1) 1 (length fails)\<rparr>"
  let ?s3 = "?s2\<lparr>script := Exited c2 out2 err2 # rest,
        trace := trace ?s2 @ [Run [bw_app_location ?s2, ''login'', u, p] (environ ?s2)]\<rparr>"
  have "loginWithPassword L (JStr u) (JStr p) retry_count s =
        loginWithPassword_loop L (JStr u) (JStr p) retry_count 1 False ?s1"
    using assms by (rule loginWithPassword_unauthenticated)
  also have "\<dots> = loginWithPassword_loop L (JStr u) (JStr p) retry_count
                      (1 + int (length fails)) False ?s2"
    using h by (intro loginWithPassword_loop_failures) auto
  also have "\<dots> = sbind (extractSessionFromStdOut L out) (\<lambda>u. sbind sync (\<lambda>r. sreturn True)) ?s3"
    using h by (intro loginWithPassword_loop_success) auto
  also have "\<dots> = sbind sync (\<lambda>r. sreturn True) (?s3\<lparr>bw_session_id := Some ?tok\<rparr>)"
    using h by (simp add: sbind_def extractSessionFromStdOut_eq [of L out content])
  also have "\<dots> = (Inr True,
              s\<lparr>bw_session_id := Some ?tok, script := rest,
                trace := trace s @ Run (status_command s) (environ s) #
                  failed_attempts [bw_app_location s, ''login'', u, p] (environ s) 1
                    (length fails) @
                  [Run [bw_app_location s, ''login'', u, p] (environ s),
                   Run [bw_app_location s, ''sync'', ''--session'', ?tok] (environ s)]\<rparr>)"
    by (simp add: sbind_def sreturn_def
          sync_Exited [where sid = ?tok and c = c2 and out = out2 and err = err2 and rs = rest])
  finally show "loginWithPassword L (JStr u) (JStr p) retry_count s =
             (Inr True,
              s\<lparr>bw_session_id := Some ?tok, script := rest,
                trace := trace s @ Run (status_command s) (environ s) #
                  failed_attempts [bw_app_location s, ''login'', u, p] (environ s) 1
                    (length fails) @
                  [Run [bw_app_location s, ''login'', u, p] (environ s),
                   Run [bw_app_location s, ''sync'', ''--session'', ?tok] (environ s)]\<rparr>)" .
next
  fix s'
  assume "loginWithPassword L (JStr u) (JStr p) retry_count s = (Inr False, s')"
  then have "loginWithPassword_loop L (JStr u) (JStr p) retry_count 1 False
     (s\<lparr>script := rs, trace := trace s @ [Run (status_command s) (environ s)]\<rparr>) = (Inr False, s')"
    using loginWithPassword_unauthenticated [OF assms] by simp
  from loginWithPassword_loop_False [OF this]
  show "\<exists>fails. list_all failed fails \<and> int (length fails) = max 0 retry_count \<and>
               rs = fails @ script s' \<and>
               trace s' = trace s @ Run (status_command s) (environ s) #
                 failed_attempts [bw_app_location s, ''login'', u, p] (environ s) 1
                   (length fails)"
    by simp
qed

text \<open>
  Three attempts allowed, two refused, the third accepted: three runs of the login, sleeps
  of 0.5 and 1.0 seconds between them, and the result true. Three refused: the result false.
\<close>

theorem loginWithPassword_retry_witness:
  "loginWithPassword sample_lib (JStr ''a@b.c'') (JStr ''pw'') 3
     (responds [unauthenticated, login_refused, login_refused, Exited 0 login_stdout [],
                Exited 0 ''Syncing complete.'' []] fresh)
   = (Inr True,
      fresh\<lparr>bw_session_id := Some ''abc123'',
        trace := [Run [''bw'', ''status''] [(''HOME'', ''/root'')],
         Run [''bw'', ''login'', ''a@b.c'', ''pw''] [(''HOME'', ''/root'')], Sleep 0.5,
         Run [''bw'', ''login'', ''a@b.c'', ''pw''] [(''HOME'', ''/root'')], Sleep 1.0,
         Run [''bw'', ''login'', ''a@b.c'', ''pw''] [(''HOME'', ''/root'')],
         Run [''bw'', ''sync'', ''--session'', ''abc123''] [(''HOME'', ''/root'')]]\<rparr>) \<and>
   loginWithPassword sample_lib (JStr ''a@b.c'') (JStr ''pw'') 3
     (responds [unauthenticated, login_refused, login_refused, login_refused] fresh)
   = (Inr False,
      fresh\<lparr>trace := [Run [''bw'', ''status''] [(''HOME'', ''/root'')],
         Run [''bw'', ''login'', ''a@b.c'', ''pw''] [(''HOME'', ''/root'')], Sleep 0.5,
         Run [''bw'', ''login'', ''a@b.c'', ''pw''] [(''HOME'', ''/root'')], Sleep 1.0,
         Run [''bw'', ''login'', ''a@b.c'', ''pw''] [(''HOME'', ''/root'')], Sleep 1.5]\<rparr>)"
proof -
  let ?rs = "[login_refused, login_refused, Exited 0 login_stdout [],
                Exited 0 ''Syncing complete.'' []]"
  let ?s = "responds (unauthenticated # ?rs) fresh"
  have sc: "script ?s = Exited 0 (status_text ''unauthenticated'') [] # ?rs"
    by (simp add: responds_def unauthenticated_def)
  have 1: "loginWithPassword sample_lib (JStr ''a@b.c'') (JStr ''pw'') 3 ?s
   = (Inr True,
      fresh\<lparr>bw_session_id := Some ''abc123'',
        trace := [Run [''bw'', ''status''] [(''HOME'', ''/root'')],
         Run [''bw'', ''login'', ''a@b.c'', ''pw''] [(''HOME'', ''/root'')], Sleep 0.5,
         Run [''bw'', ''login'', ''a@b.c'', ''pw''] [(''HOME'', ''/root'')], Sleep 1.0,
         Run [''bw'', ''login'', ''a@b.c'', ''pw''] [(''HOME'', ''/root'')],
         Run [''bw'', ''sync'', ''--session'', ''abc123''] [(''HOME'', ''/root'')]]\<rparr>)"
    using loginWithPassword_retry [OF sc sample_status(1,2),
        where retry_count = 3 and u = "''a@b.c''" and p = "''pw''",
        THEN conjunct1, rule_format,
        where fails = "[login_refused, login_refused]" and out = login_stdout and err = "[]"
          and content = login_stdout and ?c2.0 = 0 and ?out2.0 = "''Syncing complete.''"
          and ?err2.0 = "[]" and rest = "[]"]
    by (simp add: sample_status(3) export_lines_login_stdout login_refused_def responds_def
        fresh_def status_command_def token_of_line_def dq_def numeral_2_eq_2)
  let ?rs2 = "[login_refused, login_refused, login_refused]"
  let ?s2 = "responds (unauthenticated # ?rs2) fresh"
  have sc2: "script ?s2 = Exited 0 (status_text ''unauthenticated'') [] # ?rs2"
    by (simp add: responds_def unauthenticated_def)
  have 2: "loginWithPassword sample_lib (JStr ''a@b.c'') (JStr ''pw'') 3 ?s2
   = (Inr False,
      fresh\<lparr>trace := [Run [''bw'', ''status''] [(''HOME'', ''/root'')],
         Run [''bw'', ''login'', ''a@b.c'', ''pw''] [(''HOME'', ''/root'')], Sleep 0.5,
         Run [''bw'', ''login'', ''a@b.c'', ''pw''] [(''HOME'', ''/root'')], Sleep 1.0,
         Run [''bw'', ''login'', ''a@b.c'', ''pw''] [(''HOME'', ''/root'')], Sleep 1.5]\<rparr>)"
  proof -
    let ?t1 = "?s2\<lparr>script := ?rs2,
      trace := trace ?s2 @ [Run (status_command ?s2) (environ ?s2)]\<rparr>"
    have "loginWithPassword sample_lib (JStr ''a@b.c'') (JStr ''pw'') 3 ?s2 =
          loginWithPassword_loop sample_lib (JStr ''a@b.c'') (JStr ''pw'') 3 1 False ?t1"
      by (rule loginWithPassword_unauthenticated [OF sc2 sample_status(1,2)])
    also have "\<dots> = loginWithPassword_loop sample_lib (JStr ''a@b.c'') (JStr ''pw'') 3
        (1 + int (length ?rs2)) False
        (?t1\<lparr>script := [],
           trace := trace ?t1 @
             failed_attempts [bw_app_location ?t1, ''login'', ''a@b.c'', ''pw''] (environ ?t1) 1
               (length ?rs2)\<rparr>)"
      by (rule loginWithPassword_loop_failures) (simp_all add: login_refused_def)
    also have "\<dots> = (Inr False,
      fresh\<lparr>trace := [Run [''bw'', ''status''] [(''HOME'', ''/root'')],
         Run [''bw'', ''login'', ''a@b.c'', ''pw''] [(''HOME'', ''/root'')], Sleep 0.5,
         Run [''bw'', ''login'', ''a@b.c'', ''pw''] [(''HOME'', ''/root'')], Sleep 1.0,
         Run [''bw'', ''login'', ''a@b.c'', ''pw''] [(''HOME'', ''/root'')], Sleep 1.5]\<rparr>)"
      by (simp add: loginWithPassword_loop_exhausted responds_def fresh_def status_command_def
          numeral_3_eq_3)
    finally show ?thesis .
  qed
  from 1 2 show ?thesis by simp
qed

text \<open>
  C3 as the specification states it fails where the third attempt exits with code 0 and
  prints no session line: the login has run three times, with sleeps of 0.5 and 1.0 seconds,
  and the call ends with \<^verbatim>\<open>VaultNotUnlockedException\<close> instead of returning true.
\<close>

theorem loginWithPassword_third_attempt_no_token:
  "loginWithPassword sample_lib (JStr ''a@b.c'') (JStr ''pw'') 3
     (responds [unauthenticated, login_refused, login_refused,
                Exited 0 ''You are logged in!'' []] fresh)
   = (Inl VaultNotUnlockedException,
      fresh\<lparr>trace := [Run [''bw'', ''status''] [(''HOME'', ''/root'')],
         Run [''bw'', ''login'', ''a@b.c'', ''pw''] [(''HOME'', ''/root'')], Sleep 0.5,
         Run [''bw'', ''login'', ''a@b.c'', ''pw''] [(''HOME'', ''/root'')], Sleep 1.0,
         Run [''bw'', ''login'', ''a@b.c'', ''pw''] [(''HOME'', ''/root'')]]\<rparr>)"
proof -
  let ?s = "responds [unauthenticated, login_refused, login_refused,
                Exited 0 ''You are logged in!'' []] fresh"
  have sc: "script ?s = Exited 0 (status_text ''unauthenticated'') [] #
      [login_refused, login_refused] @ Exited 0 ''You are logged in!'' [] # []"
    by (simp add: responds_def unauthenticated_def)
  have f: "list_all failed [login_refused, login_refused]" by (simp add: login_refused_def)
  have e: "export_lines ''You are logged in!'' = []" by (simp add: export_lines_def)
  have n: "bw_session_id ?s = None" by (simp add: responds_def fresh_def)
  show ?thesis
    using loginWithPassword_no_token [OF sc sample_status(1,2) f _ sample_status(3) e n,
        where retry_count = 3 and u = "''a@b.c''" and p = "''pw''"]
    by (simp add: responds_def fresh_def status_command_def numeral_2_eq_2)
qed

section \<open>The environment of the API-key login\<close>

text \<open>
  C7, as the code has it. For every call of \<^verbatim>\<open>loginWithApiKey\<close> from the status
  Unauthenticated that returns (true or false): the status query ran in the environment of
  the caller; every login attempt ran with \<^verbatim>\<open>BW_CLIENTID\<close> and \<^verbatim>\<open>BW_CLIENTSECRET\<close> set
  to the given values; at the return neither variable is set, and every other variable is
  as before. The environment at the return is the one before the call with the two
  variables deleted: equal to it when neither was set before, and otherwise without the
  value that was there (it is not restored).
\<close>

theorem loginWithApiKey_environment:
  assumes "script s = Exited 0 st_out st_err # rs" and "json_loads L st_out = Inr st"
    and "getitem st ''status'' = Inr (JStr ''unauthenticated'')"
    and "loginWithApiKey L (JStr cid) (JStr sec) n s = (Inr b, s')"
  shows "environ s' = AList.delete ''BW_CLIENTSECRET'' (AList.delete ''BW_CLIENTID'' (environ s)) \<and>
     ''BW_CLIENTID'' \<notin> fst ` set (environ s') \<and> ''BW_CLIENTSECRET'' \<notin> fst ` set (environ s') \<and>
     (\<forall>k. k \<noteq> ''BW_CLIENTID'' \<and> k \<noteq> ''BW_CLIENTSECRET'' \<longrightarrow>
          map_of (environ s') k = map_of (environ s) k) \<and>
     (\<exists>evs. trace s' = trace s @ Run (status_command s) (environ s) # evs \<and>
        (\<forall>args env. Run args env \<in> set evs \<longrightarrow>
           args = [bw_app_location s, ''login'', ''--apikey''] \<and>
           env = AList.update ''BW_CLIENTSECRET'' sec
                   (AList.update ''BW_CLIENTID'' cid (environ s)) \<and>
           map_of env ''BW_CLIENTID'' = Some cid \<and> map_of env ''BW_CLIENTSECRET'' = Some sec))"
proof -
  let ?env = "AList.update ''BW_CLIENTSECRET'' sec (AList.update ''BW_CLIENTID'' cid (environ s))"
  let ?s1 = "s\<lparr>script := rs, trace := trace s @ [Run (status_command s) (environ s)],
        environ := ?env\<rparr>"
  obtain r2 s2 where loop: "loginWithApiKey_loop n 1 False ?s1 = (r2, s2)"
    by (cases "loginWithApiKey_loop n 1 False ?s1")
  from loginWithApiKey_loop_frame [OF loop]
  obtain evs where fr: "environ s2 = ?env" "trace s2 = trace ?s1 @ evs"
    "\<forall>args env. Run args env \<in> set evs \<longrightarrow>
         args = [bw_app_location s, ''login'', ''--apikey''] \<and> env = ?env"
    by auto
  have dom: "''BW_CLIENTID'' \<in> fst ` set ?env" "''BW_CLIENTSECRET'' \<in> fst ` set ?env"
    by (simp_all add: dom_update)
  have res: "(Inr b, s') =
     sbind (loginWithApiKey_loop n 1 False) (\<lambda>ret_value.
       sbind (environ_del ''BW_CLIENTID'') (\<lambda>u.
       sbind (environ_del ''BW_CLIENTSECRET'') (\<lambda>u. sreturn ret_value))) ?s1"
    using loginWithApiKey_unauthenticated [OF assms(1-3)] assms(4) by simp
  obtain b2 where r2: "r2 = Inr b2"
    using res loop by (cases r2) (simp_all add: sbind_def)
  have s': "s' = s2\<lparr>environ := AList.delete ''BW_CLIENTSECRET'' (AList.delete ''BW_CLIENTID'' ?env)\<rparr>"
    using res loop r2 fr(1) dom
    by (simp add: sbind_def sreturn_def environ_del_def delete_update dom_update)
  have env': "environ s' = AList.delete ''BW_CLIENTSECRET'' (AList.delete ''BW_CLIENTID'' (environ s))"
    using s' by (simp add: delete_update delete_update_same)
  have m: "map_of ?env ''BW_CLIENTID'' = Some cid" "map_of ?env ''BW_CLIENTSECRET'' = Some sec"
    by (simp_all add: update_conv')
  have tr: "trace s' = trace s @ Run (status_command s) (environ s) # evs"
    using s' fr(2) by simp
  have n1: "''BW_CLIENTID'' \<notin> fst ` set (environ s')"
    unfolding env' by (subst delete_twist) (rule delete_notin_dom)
  have n2: "''BW_CLIENTSECRET'' \<notin> fst ` set (environ s')"
    unfolding env' by (rule delete_notin_dom)
  have others: "\<forall>k. k \<noteq> ''BW_CLIENTID'' \<and> k \<noteq> ''BW_CLIENTSECRET'' \<longrightarrow>
          map_of (environ s') k = map_of (environ s) k"
    unfolding env' by simp
  from fr(3) m have runs: "\<forall>args env. Run args env \<in> set evs \<longrightarrow>
           args = [bw_app_location s, ''login'', ''--apikey''] \<and> env = ?env \<and>
           map_of env ''BW_CLIENTID'' = Some cid \<and> map_of env ''BW_CLIENTSECRET'' = Some sec"
    by blast
  from env' n1 n2 others tr runs show ?thesis by blast
qed


text \<open>
  A call that returns true after one refused attempt, and one that returns false: the
  attempts see the two variables, and the environment ends as it began.
\<close>

theorem loginWithApiKey_environment_witness:
  "loginWithApiKey sample_lib (JStr ''user.1'') (JStr ''s3cret'') 5
     (responds [unauthenticated, login_refused, Exited 0 ''You are logged in!'' []] fresh)
   = (Inr True,
      fresh\<lparr>trace := [Run [''bw'', ''status''] [(''HOME'', ''/root'')],
         Run [''bw'', ''login'', ''--apikey'']
           [(''HOME'', ''/root''), (''BW_CLIENTID'', ''user.1''), (''BW_CLIENTSECRET'', ''s3cret'')],
         Sleep 0.5,
         Run [''bw'', ''login'', ''--apikey'']
           [(''HOME'', ''/root''), (''BW_CLIENTID'', ''user.1''),
            (''BW_CLIENTSECRET'', ''s3cret'')]]\<rparr>) \<and>
   loginWithApiKey sample_lib (JStr ''user.1'') (JStr ''s3cret'') 1
     (responds [unauthenticated, login_refused] fresh)
   = (Inr False,
      fresh\<lparr>trace := [Run [''bw'', ''status''] [(''HOME'', ''/root'')],
         Run [''bw'', ''login'', ''--apikey'']
           [(''HOME'', ''/root''), (''BW_CLIENTID'', ''user.1''), (''BW_CLIENTSECRET'', ''s3cret'')],
         Sleep 0.5]\<rparr>) \<and>
   environ fresh = [(''HOME'', ''/root'')]"
proof -
  let ?s = "responds [unauthenticated, login_refused, Exited 0 ''You are logged in!'' []] fresh"
  have sc: "script ?s = Exited 0 (status_text ''unauthenticated'') [] #
      [login_refused, Exited 0 ''You are logged in!'' []]"
    by (simp add: responds_def unauthenticated_def)
  have 1: "loginWithApiKey sample_lib (JStr ''user.1'') (JStr ''s3cret'') 5 ?s
   = (Inr True,
      fresh\<lparr>trace := [Run [''bw'', ''status''] [(''HOME'', ''/root'')],
         Run [''bw'', ''login'', ''--apikey'']
           [(''HOME'', ''/root''), (''BW_CLIENTID'', ''user.1''), (''BW_CLIENTSECRET'', ''s3cret'')],
         Sleep 0.5,
         Run [''bw'', ''login'', ''--apikey'']
           [(''HOME'', ''/root''), (''BW_CLIENTID'', ''user.1''),
            (''BW_CLIENTSECRET'', ''s3cret'')]]\<rparr>)"
    unfolding loginWithApiKey_unauthenticated [OF sc sample_status(1,2)] sbind_def
    by (subst loginWithApiKey_loop.simps, subst loginWithApiKey_loop.simps)
       (simp add: performCommandLineOperation_def sleep_def login_refused_def responds_def
          fresh_def status_command_def monad_defs environ_del_def)
  let ?s2 = "responds [unauthenticated, login_refused] fresh"
  have sc2: "script ?s2 = Exited 0 (status_text ''unauthenticated'') [] # [login_refused]"
    by (simp add: responds_def unauthenticated_def)
  have 2: "loginWithApiKey sample_lib (JStr ''user.1'') (JStr ''s3cret'') 1 ?s2
   = (Inr False,
      fresh\<lparr>trace := [Run [''bw'', ''status''] [(''HOME'', ''/root'')],
         Run [''bw'', ''login'', ''--apikey'']
           [(''HOME'', ''/root''), (''BW_CLIENTID'', ''user.1''), (''BW_CLIENTSECRET'', ''s3cret'')],
         Sleep 0.5]\<rparr>)"
    unfolding loginWithApiKey_unauthenticated [OF sc2 sample_status(1,2)] sbind_def
    by (subst loginWithApiKey_loop.simps, subst loginWithApiKey_loop.simps)
       (simp add: performCommandLineOperation_def sleep_def login_refused_def responds_def
          fresh_def status_command_def monad_defs environ_del_def)
  from loginWithApiKey_environment [OF sc sample_status(1,2) 1]
       loginWithApiKey_environment [OF sc2 sample_status(1,2) 2] 1 2
  show ?thesis by (simp add: fresh_def)
qed

text \<open>
  C7 as the specification states it, with an environment unchanged by the call, fails where
  \<^verbatim>\<open>BW_CLIENTID\<close> was set before the call: the call deletes it, and the environment at
  the return differs from the one before.
\<close>

theorem loginWithApiKey_drops_previous_value:
  "loginWithApiKey sample_lib (JStr ''user.1'') (JStr ''s3cret'') 5
     (responds [unauthenticated, Exited 0 ''You are logged in!'' []]
        (fresh\<lparr>environ := [(''HOME'', ''/root''), (''BW_CLIENTID'', ''user.0'')]\<rparr>))
   = (Inr True,
      fresh\<lparr>environ := [(''HOME'', ''/root'')],
        trace := [Run [''bw'', ''status''] [(''HOME'', ''/root''), (''BW_CLIENTID'', ''user.0'')],
         Run [''bw'', ''login'', ''--apikey'']
           [(''HOME'', ''/root''), (''BW_CLIENTID'', ''user.1''),
            (''BW_CLIENTSECRET'', ''s3cret'')]]\<rparr>) \<and>
   [(''HOME'', ''/root'')] \<noteq> [(''HOME'', ''/root''), (''BW_CLIENTID'', ''user.0'')]"
proof -
  let ?s = "responds [unauthenticated, Exited 0 ''You are logged in!'' []]
        (fresh\<lparr>environ := [(''HOME'', ''/root''), (''BW_CLIENTID'', ''user.0'')]\<rparr>)"
  have sc: "script ?s = Exited 0 (status_text ''unauthenticated'') [] #
      [Exited 0 ''You are logged in!'' []]"
    by (simp add: responds_def unauthenticated_def)
  show ?thesis
    unfolding loginWithApiKey_unauthenticated [OF sc sample_status(1,2)] sbind_def
    by (subst loginWithApiKey_loop.simps)
       (simp add: performCommandLineOperation_def sleep_def responds_def
          fresh_def status_command_def monad_defs environ_del_def)
qed


section \<open>The targets of an export of everything\<close>




section \<open>The extension of the export files\<close>

text \<open>
  C6, as the code has it. For each of the formats json, csv and encrypted_json, and whatever
  the outcome of \<^verbatim>\<open>exportAll\<close>, the output path of every export it has run ends in a
  dot and the format itself: the extension is \<^verbatim>\<open>json\<close> for json, \<^verbatim>\<open>csv\<close> for csv and
  \<^verbatim>\<open>encrypted_json\<close> for encrypted_json.
\<close>

theorem exportAll_extension:
  assumes "exportAll L dir fmt pw s = (r, s')"
    and "fmt \<in> {''json'', ''csv'', ''encrypted_json''}"
  shows "\<exists>evs. trace s' = trace s @ evs \<and>
           (\<forall>e \<in> set (exports evs). file_ext (export_path e) = fmt)"
proof -
  from assms(2) have d: "CHR ''.'' \<notin> set fmt" by auto
  from exportAll_cases [OF assms(1), of "\<lambda>e. file_ext (export_path e) = fmt"]
    file_ext_personal_path [OF d] file_ext_org_path [OF d]
  obtain evs where "trace s' = trace s @ evs"
    "list_all (\<lambda>e. file_ext (export_path e) = fmt) (exports evs)"
    by (auto simp: org_export_def)
  then show ?thesis by (auto simp: list_all_iff)
qed

text \<open>An export in the format csv writes three files with the extension csv.\<close>

theorem exportAll_extension_witness:
  "exports (trace (snd (exportAll sample_lib ''out'' ''csv'' None
     (responds [status_unlocked, export_done, three_orgs, export_done, export_done] unlocked))))
   = [PersonalExport ''out/a@b.c-20240131-0930.csv'',
      OrganizationExport ''o1'' ''out/a@b.c-Acme-20240131-0930.csv'',
      OrganizationExport ''o3'' ''out/a@b.c-Shop-20240131-0930.csv''] \<and>
   file_ext ''out/a@b.c-20240131-0930.csv'' = ''csv'' \<and>
   file_ext ''out/a@b.c-Acme-20240131-0930.csv'' = ''csv'' \<and>
   file_ext ''out/a@b.c-Shop-20240131-0930.csv'' = ''csv''"
proof -
  have t0: "trace (responds [status_unlocked, export_done, three_orgs, export_done, export_done]
      unlocked) = []"
    by (simp add: responds_def unlocked_def fresh_def)
  from exportAll_extension [OF sample_export_csv] t0
  show ?thesis by (simp add: sample_export_csv)
qed

text \<open>
  C6 as the specification states it, with the extension json for encrypted_json, fails: the
  files of an export in the format encrypted_json end in \<^verbatim>\<open>.encrypted_json\<close>.
\<close>

theorem exportAll_encrypted_json_extension:
  "exports (trace (snd (exportAll sample_lib ''out'' ''encrypted_json'' (Some ''k'')
     (responds [status_unlocked, export_done, three_orgs, export_done, export_done] unlocked))))
   = [PersonalExport ''out/a@b.c-20240131-0930.encrypted_json'',
      OrganizationExport ''o1'' ''out/a@b.c-Acme-20240131-0930.encrypted_json'',
      OrganizationExport ''o3'' ''out/a@b.c-Shop-20240131-0930.encrypted_json''] \<and>
   file_ext ''out/a@b.c-20240131-0930.encrypted_json'' = ''encrypted_json'' \<and>
   file_ext ''out/a@b.c-20240131-0930.encrypted_json'' \<noteq> ''json''"
  by (simp add: run_defs sample_defs org_defs file_ext_def)


section \<open>The stored server URL\<close>

text \<open>
  C10. In every state a \<^verbatim>\<open>Bitwarden\<close> instance can reach, the field \<^verbatim>\<open>_serverUrl\<close> is
  \<^verbatim>\<open>None\<close>, and so is what the \<^verbatim>\<open>serverUrl\<close> property returns: the constructor sets
  the field to \<^verbatim>\<open>None\<close>, and no method assigns it, the setter of the property included,
  which only runs the command that changes the server of the executable.
\<close>

theorem serverUrl_always_None:
  "reachable L s \<Longrightarrow> serverUrl s = None"
proof (induction rule: reachable.induct)
  case (init bwCliLocation u ca_cert_path s0 s)
  from Bitwarden_init_serverUrl [of L bwCliLocation u ca_cert_path s0] init
  show ?case by (simp add: serverUrl_def)
next
  case (call s c)
  then show ?case by (simp add: serverUrl_def after_keeps)
next
  case (world s s')
  then show ?case by (simp add: serverUrl_def)
qed


text \<open>
  A client constructed for a server other than the one the executable was set to: the
  constructor runs the change of server, and the property still returns \<^verbatim>\<open>None\<close>, as it
  does after a further call of the setter.
\<close>

theorem serverUrl_always_None_witness:
  "Bitwarden_init sample_lib ''bw'' other_url JNull
     (responds [unauthenticated, unauthenticated, config_done] fresh) = (Inr (), configured) \<and>
   reachable sample_lib configured \<and> serverUrl configured = None \<and>
   reachable sample_lib
     (after sample_lib (Set_serverUrl vault_url)
        (responds [unauthenticated, config_done] configured)) \<and>
   serverUrl (after sample_lib (Set_serverUrl vault_url)
        (responds [unauthenticated, config_done] configured)) = None"
proof -
  have i: "Bitwarden_init sample_lib ''bw'' other_url JNull
     (responds [unauthenticated, unauthenticated, config_done] fresh) = (Inr (), configured)"
    by (simp add: Bitwarden_init_def serverUrl_set_def status_def
        performCommandLineOperation_def monad_defs sample_defs2 other_url_def config_done_def
        configured_def)
  have r1: "reachable sample_lib configured"
    by (rule reachable.init [OF i])
  have r2: "reachable sample_lib (responds [unauthenticated, config_done] configured)"
    by (rule reachable.world [OF r1]) (simp_all add: responds_def)
  have r3: "reachable sample_lib
     (after sample_lib (Set_serverUrl vault_url)
        (responds [unauthenticated, config_done] configured))"
    by (rule reachable.call [OF r2])
  from serverUrl_always_None [OF r1] serverUrl_always_None [OF r3] i r1 r3
  show ?thesis by simp
qed


end
